theory Spec2Isabelle
  imports Main "HOL-Library.Word"
begin

unbundle bit_operations_syntax

section \<open>The kernel volk\_32f\_s32f\_power\_32f\<close>

text \<open>
  The header \<^verbatim>\<open>kernels/volk/volk_32f_s32f_power_32f.h\<close> holds three bodies of one
  kernel: \<^verbatim>\<open>_a_sse4_1\<close>, \<^verbatim>\<open>_a_sse\<close> and \<^verbatim>\<open>_generic\<close>. Each raises every element of
  \<^verbatim>\<open>aVector\<close> to \<^verbatim>\<open>power\<close> and stores the results in \<^verbatim>\<open>cVector\<close>.

  What the embedding fixes:
  \<^item> a \<^verbatim>\<open>float\<close> is its IEEE-754 binary32 bit pattern, a 32-bit word; the SSE bitwise
    instructions and the comparison work on that pattern;
  \<^item> \<^verbatim>\<open>unsigned int\<close> is a 32-bit word, so \<^verbatim>\<open>number++\<close> and \<^verbatim>\<open>quarterPoints * 4\<close> wrap as in C;
  \<^item> the two buffers are two lists, so \<^verbatim>\<open>cVector\<close> and \<^verbatim>\<open>aVector\<close> do not overlap; the
    pointers \<^verbatim>\<open>aPtr\<close> and \<^verbatim>\<open>cPtr\<close> are element offsets from the start of their buffer, and
    an access outside a buffer (undefined behaviour in C) is the fault \<open>OutOfBounds\<close>;
  \<^item> every memory access and every call of an external power routine is appended to a
    trace, so that what is read, what is written and how often can be stated;
  \<^item> \<^verbatim>\<open>powf\<close> (libm), \<^verbatim>\<open>powf4\<close> (simdmath) and the rounding arithmetic of \<^verbatim>\<open>_mm_sub_ps\<close> and
    \<^verbatim>\<open>_mm_mul_ps\<close> are not part of this repository: they are parameters, kept in the
    record \<open>platform\<close>;
  \<^item> the argument \<^verbatim>\<open>power\<close> is written \<open>pwr\<close> (\<open>power\<close> is a constant of HOL);
  \<^item> the build flag \<^verbatim>\<open>LV_HAVE_LIB_SIMDMATH\<close> is a boolean argument.
  The 16-byte alignment that \<^verbatim>\<open>_mm_load_ps\<close> and \<^verbatim>\<open>_mm_store_ps\<close> ask of an address is not
  modelled: a buffer here has no address.
\<close>

subsection \<open>Data\<close>

type_synonym float = "32 word"
type_synonym uint = "32 word"

text \<open>An \<^verbatim>\<open>__m128\<close>: four packed single-precision lanes, lane 0 at the lowest address.\<close>

datatype m128 = M128 float float float float

fun lane :: "m128 \<Rightarrow> nat \<Rightarrow> float" where
  "lane (M128 x0 x1 x2 x3) j = [x0, x1, x2, x3] ! j"

fun map2_ps :: "(float \<Rightarrow> float \<Rightarrow> float) \<Rightarrow> m128 \<Rightarrow> m128 \<Rightarrow> m128" where
  "map2_ps f (M128 x0 x1 x2 x3) (M128 y0 y1 y2 y3) = M128 (f x0 y0) (f x1 y1) (f x2 y2) (f x3 y3)"

fun map3_ps :: "(float \<Rightarrow> float \<Rightarrow> float \<Rightarrow> float) \<Rightarrow> m128 \<Rightarrow> m128 \<Rightarrow> m128 \<Rightarrow> m128" where
  "map3_ps f (M128 x0 x1 x2 x3) (M128 y0 y1 y2 y3) (M128 z0 z1 z2 z3) =
     M128 (f x0 y0 z0) (f x1 y1 z1) (f x2 y2 z2) (f x3 y3 z3)"

text \<open>The routines the header calls and does not define.\<close>

record platform =
  powf :: "float \<Rightarrow> float \<Rightarrow> float"
  powf4 :: "m128 \<Rightarrow> m128 \<Rightarrow> m128"
  sub_ss :: "float \<Rightarrow> float \<Rightarrow> float"
  mul_ss :: "float \<Rightarrow> float \<Rightarrow> float"

datatype fault = OutOfBounds

datatype event =
    Load nat
  | Store nat
  | Load4 nat
  | Store4 nat
  | Call_powf float float
  | Call_powf4 m128 m128

record kstate =
  aVec :: "float list"
  cVec :: "float list"
  aPtr :: nat
  cPtr :: nat
  trace :: "event list"

subsection \<open>Single-precision constants and the ordered comparison\<close>

definition one_f :: float where
  "one_f = 0x3F800000"

definition minus_one_f :: float where
  "minus_one_f = 0xBF800000"

definition neg_zero_f :: float where
  "neg_zero_f = 0x80000000"

definition magnitude :: "float \<Rightarrow> float" where
  "magnitude w = w AND 0x7FFFFFFF"

definition sign_bit :: "float \<Rightarrow> bool" where
  "sign_bit w = bit w 31"

definition is_nan :: "float \<Rightarrow> bool" where
  "is_nan w = (0x7F800000 < magnitude w)"

text \<open>
  IEEE-754 \<open><\<close> on two bit patterns: false when either is a NaN, false between two
  zeros of any sign, and otherwise the order of sign and magnitude. This is the predicate
  of \<^verbatim>\<open>_mm_cmplt_ps\<close> in the default mode of the control register (denormals are not
  flushed to zero).
\<close>

definition float_lt :: "float \<Rightarrow> float \<Rightarrow> bool" where
  "float_lt x y =
     (if is_nan x \<or> is_nan y then False
      else if magnitude x = 0 \<and> magnitude y = 0 then False
      else if sign_bit x then (if sign_bit y then magnitude y < magnitude x else True)
      else (if sign_bit y then False else magnitude x < magnitude y))"

subsection \<open>The SSE intrinsics\<close>

definition mm_set_ps1 :: "float \<Rightarrow> m128" where
  "mm_set_ps1 x = M128 x x x x"

definition mm_setzero_ps :: m128 where
  "mm_setzero_ps = M128 0 0 0 0"

text \<open>\<^verbatim>\<open>_mm_cmplt_ps\<close>: a lane of all ones where the comparison holds, of all zeros elsewhere.\<close>

definition mm_cmplt_ps :: "m128 \<Rightarrow> m128 \<Rightarrow> m128" where
  "mm_cmplt_ps a b = map2_ps (\<lambda>x y. if float_lt x y then 0xFFFFFFFF else 0) a b"

definition mm_sub_ps :: "platform \<Rightarrow> m128 \<Rightarrow> m128 \<Rightarrow> m128" where
  "mm_sub_ps pf a b = map2_ps (sub_ss pf) a b"

definition mm_mul_ps :: "platform \<Rightarrow> m128 \<Rightarrow> m128 \<Rightarrow> m128" where
  "mm_mul_ps pf a b = map2_ps (mul_ss pf) a b"

text \<open>\<^verbatim>\<open>_mm_blendv_ps(a, b, mask)\<close>: the lane of \<open>b\<close> where the top bit of the mask lane is set.\<close>

definition mm_blendv_ps :: "m128 \<Rightarrow> m128 \<Rightarrow> m128 \<Rightarrow> m128" where
  "mm_blendv_ps a b sel = map3_ps (\<lambda>x y m. if bit m 31 then y else x) a b sel"

definition mm_and_ps :: "m128 \<Rightarrow> m128 \<Rightarrow> m128" where
  "mm_and_ps a b = map2_ps (\<lambda>x y. x AND y) a b"

text \<open>\<^verbatim>\<open>_mm_andnot_ps(a, b)\<close> is \<open>(NOT a) AND b\<close>.\<close>

definition mm_andnot_ps :: "m128 \<Rightarrow> m128 \<Rightarrow> m128" where
  "mm_andnot_ps a b = map2_ps (\<lambda>x y. NOT x AND y) a b"

definition mm_or_ps :: "m128 \<Rightarrow> m128 \<Rightarrow> m128" where
  "mm_or_ps a b = map2_ps (\<lambda>x y. x OR y) a b"

definition mm_load_ps :: "float list \<Rightarrow> nat \<Rightarrow> fault + m128" where
  "mm_load_ps buf p =
     (if p + 4 \<le> length buf
      then Inr (M128 (buf ! p) (buf ! (p + 1)) (buf ! (p + 2)) (buf ! (p + 3)))
      else Inl OutOfBounds)"

fun mm_store_ps :: "float list \<Rightarrow> nat \<Rightarrow> m128 \<Rightarrow> fault + float list" where
  "mm_store_ps buf p (M128 x0 x1 x2 x3) =
     (if p + 4 \<le> length buf
      then Inr (buf[p := x0, p + 1 := x1, p + 2 := x2, p + 3 := x3])
      else Inl OutOfBounds)"

subsection \<open>The scalar loop\<close>

text \<open>One round of \<^verbatim>\<open>*cPtr++ = powf((*aPtr++), power);\<close>\<close>

definition scalar_step :: "platform \<Rightarrow> float \<Rightarrow> kstate \<Rightarrow> fault + kstate" where
  "scalar_step pf pwr s =
     (if aPtr s < length (aVec s) then
        (let x = aVec s ! aPtr s; y = powf pf x pwr in
         if cPtr s < length (cVec s) then
           Inr (s\<lparr>cVec := (cVec s)[cPtr s := y],
                  aPtr := aPtr s + 1,
                  cPtr := cPtr s + 1,
                  trace := trace s @ [Load (aPtr s), Call_powf x pwr, Store (cPtr s)]\<rparr>)
         else Inl OutOfBounds)
      else Inl OutOfBounds)"

text \<open>\<^verbatim>\<open>for (; number < num_points; number++) { ... }\<close>\<close>

function scalar_loop :: "platform \<Rightarrow> float \<Rightarrow> uint \<Rightarrow> uint \<Rightarrow> kstate \<Rightarrow> fault + kstate" where
  "scalar_loop pf pwr number num_points s =
     (if number < num_points then
        (case scalar_step pf pwr s of
           Inl e \<Rightarrow> Inl e
         | Inr s' \<Rightarrow> scalar_loop pf pwr (number + 1) num_points s')
      else Inr s)"
  by pat_completeness auto
termination
  by (relation "measure (\<lambda>(pf, pwr, number, num_points, s). unat num_points - unat number)")
     (simp, clarsimp, unat_arith)

declare scalar_loop.simps [simp del]

definition init_state :: "float list \<Rightarrow> float list \<Rightarrow> kstate" where
  "init_state cVector aVector =
     \<lparr>aVec = aVector, cVec = cVector, aPtr = 0, cPtr = 0, trace = []\<rparr>"

definition volk_32f_s32f_power_32f_generic ::
    "platform \<Rightarrow> float list \<Rightarrow> float list \<Rightarrow> float \<Rightarrow> uint \<Rightarrow> fault + kstate" where
  "volk_32f_s32f_power_32f_generic pf cVector aVector pwr num_points =
     scalar_loop pf pwr 0 num_points (init_state cVector aVector)"

subsection \<open>The batch loop of the SSE bodies\<close>

text \<open>
  The bodies of \<^verbatim>\<open>_a_sse4_1\<close> and \<^verbatim>\<open>_a_sse\<close> are the same text but for the two expressions
  that choose lanes under \<^verbatim>\<open>signMask\<close>: \<^verbatim>\<open>_mm_blendv_ps(x, y, signMask)\<close> in the first,
  \<^verbatim>\<open>_mm_or_ps(_mm_andnot_ps(signMask, x), _mm_and_ps(signMask, y))\<close> in the second. The
  shared text is written once, with the choice as the argument \<open>blend\<close>.
\<close>

definition blend_sse4_1 :: "m128 \<Rightarrow> m128 \<Rightarrow> m128 \<Rightarrow> m128" where
  "blend_sse4_1 x y signMask = mm_blendv_ps x y signMask"

definition blend_sse :: "m128 \<Rightarrow> m128 \<Rightarrow> m128 \<Rightarrow> m128" where
  "blend_sse x y signMask = mm_or_ps (mm_andnot_ps signMask x) (mm_and_ps signMask y)"

text \<open>
  The register part of one batch: from the loaded \<^verbatim>\<open>aVal\<close> to the argument handed to
  \<^verbatim>\<open>powf4\<close> and the \<^verbatim>\<open>cVal\<close> that is stored.
\<close>

definition batch_lanes ::
    "(m128 \<Rightarrow> m128 \<Rightarrow> m128 \<Rightarrow> m128) \<Rightarrow> platform \<Rightarrow> m128 \<Rightarrow> m128 \<Rightarrow> m128 \<Rightarrow> m128 \<Rightarrow> m128
       \<Rightarrow> m128 \<times> m128" where
  "batch_lanes blend pf vPower zeroValue negativeOneToPower onesMask aVal0 =
     (let signMask = mm_cmplt_ps aVal0 zeroValue;
          negatedValues = mm_sub_ps pf zeroValue aVal0;
          aVal = blend aVal0 negatedValues signMask;
          cVal0 = powf4 pf aVal vPower;
          cVal = mm_mul_ps pf (blend onesMask negativeOneToPower signMask) cVal0
      in (aVal, cVal))"

text \<open>One round of the batch loop: load, compute, store, advance both pointers by 4.\<close>

definition batch_step ::
    "(m128 \<Rightarrow> m128 \<Rightarrow> m128 \<Rightarrow> m128) \<Rightarrow> platform \<Rightarrow> m128 \<Rightarrow> m128 \<Rightarrow> m128 \<Rightarrow> m128 \<Rightarrow> kstate
       \<Rightarrow> fault + kstate" where
  "batch_step blend pf vPower zeroValue negativeOneToPower onesMask s =
     (case mm_load_ps (aVec s) (aPtr s) of
        Inl e \<Rightarrow> Inl e
      | Inr aVal0 \<Rightarrow>
          (case batch_lanes blend pf vPower zeroValue negativeOneToPower onesMask aVal0 of
             (aVal, cVal) \<Rightarrow>
               (case mm_store_ps (cVec s) (cPtr s) cVal of
                  Inl e \<Rightarrow> Inl e
                | Inr buf \<Rightarrow>
                    Inr (s\<lparr>cVec := buf,
                           aPtr := aPtr s + 4,
                           cPtr := cPtr s + 4,
                           trace := trace s @
                             [Load4 (aPtr s), Call_powf4 aVal vPower, Store4 (cPtr s)]\<rparr>))))"

text \<open>\<^verbatim>\<open>for (; number < quarterPoints; number++) { ... }\<close>\<close>

function batch_loop ::
    "(m128 \<Rightarrow> m128 \<Rightarrow> m128 \<Rightarrow> m128) \<Rightarrow> platform \<Rightarrow> m128 \<Rightarrow> m128 \<Rightarrow> m128 \<Rightarrow> m128 \<Rightarrow> uint \<Rightarrow> uint
       \<Rightarrow> kstate \<Rightarrow> fault + kstate" where
  "batch_loop blend pf vPower zeroValue negativeOneToPower onesMask number quarterPoints s =
     (if number < quarterPoints then
        (case batch_step blend pf vPower zeroValue negativeOneToPower onesMask s of
           Inl e \<Rightarrow> Inl e
         | Inr s' \<Rightarrow>
             batch_loop blend pf vPower zeroValue negativeOneToPower onesMask (number + 1)
               quarterPoints s')
      else Inr s)"
  by pat_completeness auto
termination
  by (relation "measure (\<lambda>(blend, pf, vPower, zeroValue, negativeOneToPower, onesMask, number,
        quarterPoints, s). unat quarterPoints - unat number)")
     (simp, clarsimp, unat_arith)

declare batch_loop.simps [simp del]

subsection \<open>The SSE kernels\<close>

text \<open>
  The body shared by both SSE kernels. With \<open>have_simdmath\<close> the part between
  \<^verbatim>\<open>#ifdef LV_HAVE_LIB_SIMDMATH\<close> and \<^verbatim>\<open>#endif\<close> is compiled in: the constants, among them
  the one call \<^verbatim>\<open>powf(-1, power)\<close>, the batch loop, and \<^verbatim>\<open>number = quarterPoints * 4\<close>.
  Without it \<^verbatim>\<open>number\<close> is still 0 when the scalar loop starts.
\<close>

definition power_32f_a_simd ::
    "(m128 \<Rightarrow> m128 \<Rightarrow> m128 \<Rightarrow> m128) \<Rightarrow> bool \<Rightarrow> platform \<Rightarrow> float list \<Rightarrow> float list \<Rightarrow> float
       \<Rightarrow> uint \<Rightarrow> fault + kstate" where
  "power_32f_a_simd blend have_simdmath pf cVector aVector pwr num_points =
     (let number = 0;
          s = init_state cVector aVector
      in if have_simdmath then
           (let quarterPoints = num_points div 4;
                vPower = mm_set_ps1 pwr;
                zeroValue = mm_setzero_ps;
                negativeOneToPower = mm_set_ps1 (powf pf minus_one_f pwr);
                s1 = s\<lparr>trace := trace s @ [Call_powf minus_one_f pwr]\<rparr>;
                onesMask = mm_set_ps1 one_f
            in case batch_loop blend pf vPower zeroValue negativeOneToPower onesMask number
                      quarterPoints s1 of
                 Inl e \<Rightarrow> Inl e
               | Inr s2 \<Rightarrow> scalar_loop pf pwr (quarterPoints * 4) num_points s2)
         else scalar_loop pf pwr number num_points s)"

definition volk_32f_s32f_power_32f_a_sse4_1 ::
    "bool \<Rightarrow> platform \<Rightarrow> float list \<Rightarrow> float list \<Rightarrow> float \<Rightarrow> uint \<Rightarrow> fault + kstate" where
  "volk_32f_s32f_power_32f_a_sse4_1 = power_32f_a_simd blend_sse4_1"

definition volk_32f_s32f_power_32f_a_sse ::
    "bool \<Rightarrow> platform \<Rightarrow> float list \<Rightarrow> float list \<Rightarrow> float \<Rightarrow> uint \<Rightarrow> fault + kstate" where
  "volk_32f_s32f_power_32f_a_sse = power_32f_a_simd blend_sse"

subsection \<open>Reading a trace\<close>

fun loads_of :: "event \<Rightarrow> nat list" where
  "loads_of (Load i) = [i]"
| "loads_of (Load4 i) = [i, i + 1, i + 2, i + 3]"
| "loads_of _ = []"

fun stores_of :: "event \<Rightarrow> nat list" where
  "stores_of (Store i) = [i]"
| "stores_of (Store4 i) = [i, i + 1, i + 2, i + 3]"
| "stores_of _ = []"

definition read_indices :: "event list \<Rightarrow> nat list" where
  "read_indices tr = concat (map loads_of tr)"

definition written_indices :: "event list \<Rightarrow> nat list" where
  "written_indices tr = concat (map stores_of tr)"

text \<open>
  A given number of rounds of each loop body. The loops are shown below to run
  \<open>unat bound - unat number\<close> rounds, whatever the two words are.
\<close>

fun scalar_iter :: "platform \<Rightarrow> float \<Rightarrow> nat \<Rightarrow> kstate \<Rightarrow> fault + kstate" where
  "scalar_iter pf pwr 0 s = Inr s"
| "scalar_iter pf pwr (Suc k) s =
     (case scalar_step pf pwr s of
        Inl e \<Rightarrow> Inl e
      | Inr s' \<Rightarrow> scalar_iter pf pwr k s')"

fun batch_iter ::
    "(m128 \<Rightarrow> m128 \<Rightarrow> m128 \<Rightarrow> m128) \<Rightarrow> platform \<Rightarrow> m128 \<Rightarrow> m128 \<Rightarrow> m128 \<Rightarrow> m128 \<Rightarrow> nat
       \<Rightarrow> kstate \<Rightarrow> fault + kstate" where
  "batch_iter blend pf vPower zeroValue negativeOneToPower onesMask 0 s = Inr s"
| "batch_iter blend pf vPower zeroValue negativeOneToPower onesMask (Suc k) s =
     (case batch_step blend pf vPower zeroValue negativeOneToPower onesMask s of
        Inl e \<Rightarrow> Inl e
      | Inr s' \<Rightarrow> batch_iter blend pf vPower zeroValue negativeOneToPower onesMask k s')"

subsection \<open>Notions for stating the properties\<close>

text \<open>
  The events of \<open>k\<close> rounds of the scalar loop that start with \<^verbatim>\<open>aPtr\<close> at \<open>a\<close> and \<^verbatim>\<open>cPtr\<close>
  at \<open>c\<close>.
\<close>

definition scalar_events :: "platform \<Rightarrow> float \<Rightarrow> float list \<Rightarrow> nat \<Rightarrow> nat \<Rightarrow> nat \<Rightarrow> event list" where
  "scalar_events pf pwr buf a c k =
     concat (map (\<lambda>j. [Load (a + j), Call_powf (buf ! (a + j)) pwr, Store (c + j)]) [0..<k])"

text \<open>The four elements of a buffer from offset \<open>p\<close>, as one register.\<close>

definition vec_at :: "float list \<Rightarrow> nat \<Rightarrow> m128" where
  "vec_at buf p = M128 (buf ! p) (buf ! (p + 1)) (buf ! (p + 2)) (buf ! (p + 3))"

text \<open>
  The events of \<open>k\<close> rounds of the batch loop that start with \<^verbatim>\<open>aPtr\<close> at \<open>a\<close> and \<^verbatim>\<open>cPtr\<close>
  at \<open>c\<close>.
\<close>

definition batch_events ::
    "(m128 \<Rightarrow> m128 \<Rightarrow> m128 \<Rightarrow> m128) \<Rightarrow> platform \<Rightarrow> m128 \<Rightarrow> m128 \<Rightarrow> m128 \<Rightarrow> m128 \<Rightarrow> float list
       \<Rightarrow> nat \<Rightarrow> nat \<Rightarrow> nat \<Rightarrow> event list" where
  "batch_events blend pf vPower zeroValue negativeOneToPower onesMask buf a c k =
     concat (map (\<lambda>j. [Load4 (a + 4 * j),
                        Call_powf4 (fst (batch_lanes blend pf vPower zeroValue negativeOneToPower
                                           onesMask (vec_at buf (a + 4 * j)))) vPower,
                        Store4 (c + 4 * j)]) [0..<k])"

text \<open>A function applied to each lane.\<close>

fun map_ps :: "(float \<Rightarrow> float) \<Rightarrow> m128 \<Rightarrow> m128" where
  "map_ps f (M128 x0 x1 x2 x3) = M128 (f x0) (f x1) (f x2) (f x3)"

text \<open>
  The base handed to \<^verbatim>\<open>powf4\<close> for an input lane \<open>x\<close>, in the words of the specification
  its absolute value: \<open>0 - x\<close> where the sign mask \<open>x < 0\<close> is set, \<open>x\<close> itself elsewhere.
\<close>

definition masked_abs :: "platform \<Rightarrow> float \<Rightarrow> float" where
  "masked_abs pf x = (if float_lt x 0 then sub_ss pf 0 x else x)"

text \<open>
  The correction factor of a lane: \<open>c\<close>, which is \<^verbatim>\<open>powf(-1, power)\<close> in the kernels, where the
  sign mask is set, \<open>1.0\<close> elsewhere.
\<close>

definition correction_factor :: "float \<Rightarrow> float \<Rightarrow> float" where
  "correction_factor c x = (if float_lt x 0 then c else one_f)"

text \<open>The calls of the scalar \<^verbatim>\<open>powf\<close> in a trace, in order, each with its two arguments.\<close>

fun powf_args :: "event \<Rightarrow> (float \<times> float) list" where
  "powf_args (Call_powf x y) = [(x, y)]"
| "powf_args _ = []"

definition powf_calls :: "event list \<Rightarrow> (float \<times> float) list" where
  "powf_calls tr = concat (map powf_args tr)"

text \<open>
  Two runs of a kernel, the first on the buffers \<open>cVector\<close> and \<open>aVector\<close>: both return
  without a fault, their first \<open>n\<close> output elements are the same words, and the first run
  left the input buffer and the output elements from \<open>n\<close> on as they were.
\<close>

definition same_output_and_frame ::
    "nat \<Rightarrow> float list \<Rightarrow> float list \<Rightarrow> fault + kstate \<Rightarrow> fault + kstate \<Rightarrow> bool" where
  "same_output_and_frame n cVector aVector r r' =
     (\<exists>s s'. r = Inr s \<and> r' = Inr s' \<and>
        take n (cVec s) = take n (cVec s') \<and>
        aVec s = aVector \<and>
        drop n (cVec s) = drop n cVector)"

text \<open>A run returns without a fault and every index it loaded or stored is below \<open>n\<close>.\<close>

definition accesses_below :: "nat \<Rightarrow> fault + kstate \<Rightarrow> bool" where
  "accesses_below n r =
     (\<exists>s'. r = Inr s' \<and>
        (\<forall>i \<in> set (read_indices (trace s')). i < n) \<and>
        (\<forall>i \<in> set (written_indices (trace s')). i < n))"

text \<open>
  Output element \<open>i\<close> of an SSE kernel built with \<^verbatim>\<open>LV_HAVE_LIB_SIMDMATH\<close>, as a function of
  the input buffer: a lane of a batch below \<open>4 * (n div 4)\<close>, the scalar formula from there
  on.
\<close>

definition simd_element :: "platform \<Rightarrow> float \<Rightarrow> nat \<Rightarrow> float list \<Rightarrow> nat \<Rightarrow> float" where
  "simd_element pf pwr n buf i =
     (if i < 4 * (n div 4)
      then mul_ss pf (correction_factor (powf pf minus_one_f pwr) (buf ! i))
             (lane (powf4 pf (map_ps (masked_abs pf) (vec_at buf (4 * (i div 4))))
                      (mm_set_ps1 pwr)) (i mod 4))
      else powf pf (buf ! i) pwr)"

subsection \<open>Special values and what the standards say of them\<close>

text \<open>Positive and negative infinity, \<open>0.5\<close> and a quiet NaN, as bit patterns.\<close>

definition pos_inf_f :: float where
  "pos_inf_f = 0x7F800000"

definition neg_inf_f :: float where
  "neg_inf_f = 0xFF800000"

definition half_f :: float where
  "half_f = 0x3F000000"




text \<open>
  Three facts about the external routines at the arguments used below. They are not taken
  from this repository but from the standards its platform follows: C99 Annex F has
  \<^verbatim>\<open>pow(-inf, y) = +inf\<close> for \<open>y > 0\<close> that is not an odd integer, and a NaN for a finite negative
  base with a finite exponent that is not an integer; an IEEE-754 multiplication with a
  NaN operand is a NaN.
\<close>

definition pow_special_cases :: "platform \<Rightarrow> bool" where
  "pow_special_cases pf =
     (powf pf neg_inf_f half_f = pos_inf_f \<and>
      is_nan (powf pf minus_one_f half_f) \<and>
      (\<forall>x y. is_nan x \<longrightarrow> is_nan (mul_ss pf x y)))"


text \<open>Output element \<open>i\<close> of a run, or nothing after a fault.\<close>

definition output_at :: "fault + kstate \<Rightarrow> nat \<Rightarrow> float option" where
  "output_at r i = (case r of Inl e \<Rightarrow> None | Inr s \<Rightarrow> Some (cVec s ! i))"

section \<open>Properties of the loops\<close>

lemma upt_0_Suc_shift: "[0..<Suc k] = 0 # map Suc [0..<k]"
  by (simp add: upt_conv_Cons map_Suc_upt del: upt_Suc)

lemma scalar_events_Suc:
  "scalar_events pf pwr buf a c (Suc k) =
     [Load a, Call_powf (buf ! a) pwr, Store c] @ scalar_events pf pwr buf (Suc a) (Suc c) k"
  unfolding scalar_events_def upt_0_Suc_shift by (simp add: comp_def)

lemma scalar_loop_iter:
  "scalar_loop pf pwr number num_points s = scalar_iter pf pwr (unat num_points - unat number) s"
proof (induction pf pwr number num_points s rule: scalar_loop.induct)
  case (1 pf pwr number num_points s)
  show ?case
  proof (cases "number < num_points")
    case True
    then have k: "unat num_points - unat number = Suc (unat num_points - unat (number + 1))"
      by unat_arith
    show ?thesis
      using True "1.IH"
      by (subst scalar_loop.simps) (simp add: k split: sum.splits)
  next
    case False
    then have "unat num_points - unat number = 0"
      by unat_arith
    with False show ?thesis
      by (subst scalar_loop.simps) simp
  qed
qed

lemma scalar_iter_ok:
  "aPtr s + k \<le> length (aVec s) \<Longrightarrow> cPtr s + k \<le> length (cVec s) \<Longrightarrow>
   \<exists>s'. scalar_iter pf pwr k s = Inr s' \<and>
        aVec s' = aVec s \<and>
        length (cVec s') = length (cVec s) \<and>
        aPtr s' = aPtr s + k \<and>
        cPtr s' = cPtr s + k \<and>
        (\<forall>i. cVec s' ! i =
           (if cPtr s \<le> i \<and> i < cPtr s + k then powf pf (aVec s ! (aPtr s + (i - cPtr s))) pwr
            else cVec s ! i)) \<and>
        trace s' = trace s @ scalar_events pf pwr (aVec s) (aPtr s) (cPtr s) k"
proof (induction k arbitrary: s)
  case 0
  then show ?case by (auto simp: scalar_events_def)
next
  case (Suc k)
  define s1 where "s1 = s\<lparr>cVec := (cVec s)[cPtr s := powf pf (aVec s ! aPtr s) pwr],
                  aPtr := aPtr s + 1,
                  cPtr := cPtr s + 1,
                  trace := trace s @ [Load (aPtr s), Call_powf (aVec s ! aPtr s) pwr, Store (cPtr s)]\<rparr>"
  from Suc.prems have step: "scalar_step pf pwr s = Inr s1"
    by (simp add: scalar_step_def s1_def Let_def)
  have b: "aPtr s1 + k \<le> length (aVec s1)" "cPtr s1 + k \<le> length (cVec s1)"
    using Suc.prems by (simp_all add: s1_def)
  from Suc.IH [OF b] obtain s' where s':
    "scalar_iter pf pwr k s1 = Inr s'" "aVec s' = aVec s1" "length (cVec s') = length (cVec s1)"
    "aPtr s' = aPtr s1 + k" "cPtr s' = cPtr s1 + k"
    "\<And>i. cVec s' ! i =
           (if cPtr s1 \<le> i \<and> i < cPtr s1 + k then powf pf (aVec s1 ! (aPtr s1 + (i - cPtr s1))) pwr
            else cVec s1 ! i)"
    "trace s' = trace s1 @ scalar_events pf pwr (aVec s1) (aPtr s1) (cPtr s1) k"
    by blast
  have nth: "cVec s' ! i =
           (if cPtr s \<le> i \<and> i < cPtr s + Suc k then powf pf (aVec s ! (aPtr s + (i - cPtr s))) pwr
            else cVec s ! i)" for i
  proof (cases "i = cPtr s")
    case True
    then show ?thesis using Suc.prems by (simp add: s'(6) s1_def)
  next
    case False
    then have "Suc (cPtr s) \<le> i \<Longrightarrow> aPtr s + (i - cPtr s) = Suc (aPtr s + (i - Suc (cPtr s)))"
      by arith
    with False show ?thesis
      by (auto simp: s'(6) s1_def)
  qed
  show ?case
    using step s'(1-5) s'(7) nth
    by (simp add: s1_def scalar_events_Suc)
qed

lemma batch_events_Suc:
  "batch_events blend pf vPower zeroValue negativeOneToPower onesMask buf a c (Suc k) =
     [Load4 a,
      Call_powf4 (fst (batch_lanes blend pf vPower zeroValue negativeOneToPower onesMask
                         (vec_at buf a))) vPower,
      Store4 c] @
     batch_events blend pf vPower zeroValue negativeOneToPower onesMask buf (a + 4) (c + 4) k"
  unfolding batch_events_def upt_0_Suc_shift by (simp add: comp_def add.assoc)

lemma batch_loop_iter:
  "batch_loop blend pf vPower zeroValue negativeOneToPower onesMask number quarterPoints s =
   batch_iter blend pf vPower zeroValue negativeOneToPower onesMask
     (unat quarterPoints - unat number) s"
proof (induction blend pf vPower zeroValue negativeOneToPower onesMask number quarterPoints s
       rule: batch_loop.induct)
  case (1 blend pf vPower zeroValue negativeOneToPower onesMask number quarterPoints s)
  show ?case
  proof (cases "number < quarterPoints")
    case True
    then have k: "unat quarterPoints - unat number = Suc (unat quarterPoints - unat (number + 1))"
      by unat_arith
    show ?thesis
      using True "1.IH"
      by (subst batch_loop.simps) (simp add: k split: sum.splits)
  next
    case False
    then have "unat quarterPoints - unat number = 0"
      by unat_arith
    with False show ?thesis
      by (subst batch_loop.simps) simp
  qed
qed

lemma mm_load_ps_ok: "p + 4 \<le> length buf \<Longrightarrow> mm_load_ps buf p = Inr (vec_at buf p)"
  by (simp add: mm_load_ps_def vec_at_def)

lemma mm_store_ps_ok:
  "p + 4 \<le> length buf \<Longrightarrow>
   \<exists>buf'. mm_store_ps buf p v = Inr buf' \<and> length buf' = length buf \<and>
     (\<forall>i. buf' ! i = (if p \<le> i \<and> i < p + 4 then lane v (i - p) else buf ! i))"
proof (cases v)
  case (M128 x0 x1 x2 x3)
  assume b: "p + 4 \<le> length buf"
  have "(buf[p := x0, p + 1 := x1, p + 2 := x2, p + 3 := x3]) ! i =
        (if p \<le> i \<and> i < p + 4 then [x0, x1, x2, x3] ! (i - p) else buf ! i)" for i
  proof -
    consider "i < p" | "i = p" | "i = p + 1" | "i = p + 2" | "i = p + 3" | "p + 4 \<le> i"
      by arith
    then show ?thesis using b by cases (simp_all add: nth_list_update)
  qed
  with b show ?thesis by (simp add: M128)
qed

lemma batch_step_ok:
  assumes "aPtr s + 4 \<le> length (aVec s)" "cPtr s + 4 \<le> length (cVec s)"
  shows "\<exists>s'. batch_step blend pf vPower zeroValue negativeOneToPower onesMask s = Inr s' \<and>
        aVec s' = aVec s \<and>
        length (cVec s') = length (cVec s) \<and>
        aPtr s' = aPtr s + 4 \<and>
        cPtr s' = cPtr s + 4 \<and>
        (\<forall>i. cVec s' ! i =
           (if cPtr s \<le> i \<and> i < cPtr s + 4
            then lane (snd (batch_lanes blend pf vPower zeroValue negativeOneToPower onesMask
                              (vec_at (aVec s) (aPtr s)))) (i - cPtr s)
            else cVec s ! i)) \<and>
        trace s' = trace s @
          [Load4 (aPtr s),
           Call_powf4 (fst (batch_lanes blend pf vPower zeroValue negativeOneToPower onesMask
                              (vec_at (aVec s) (aPtr s)))) vPower,
           Store4 (cPtr s)]"
proof -
  obtain aVal cVal where l:
    "batch_lanes blend pf vPower zeroValue negativeOneToPower onesMask (vec_at (aVec s) (aPtr s))
       = (aVal, cVal)"
    by (cases "batch_lanes blend pf vPower zeroValue negativeOneToPower onesMask
                 (vec_at (aVec s) (aPtr s))")
  from mm_store_ps_ok [OF assms(2), of cVal] obtain buf' where st:
    "mm_store_ps (cVec s) (cPtr s) cVal = Inr buf'" "length buf' = length (cVec s)"
    "\<And>i. buf' ! i = (if cPtr s \<le> i \<and> i < cPtr s + 4 then lane cVal (i - cPtr s) else cVec s ! i)"
    by blast
  show ?thesis
    using st by (simp add: batch_step_def mm_load_ps_ok [OF assms(1)] l)
qed

lemma batch_iter_ok:
  "aPtr s + 4 * k \<le> length (aVec s) \<Longrightarrow> cPtr s + 4 * k \<le> length (cVec s) \<Longrightarrow>
   \<exists>s'. batch_iter blend pf vPower zeroValue negativeOneToPower onesMask k s = Inr s' \<and>
        aVec s' = aVec s \<and>
        length (cVec s') = length (cVec s) \<and>
        aPtr s' = aPtr s + 4 * k \<and>
        cPtr s' = cPtr s + 4 * k \<and>
        (\<forall>i. cVec s' ! i =
           (if cPtr s \<le> i \<and> i < cPtr s + 4 * k
            then lane (snd (batch_lanes blend pf vPower zeroValue negativeOneToPower onesMask
                              (vec_at (aVec s) (aPtr s + 4 * ((i - cPtr s) div 4)))))
                   ((i - cPtr s) mod 4)
            else cVec s ! i)) \<and>
        trace s' = trace s @
          batch_events blend pf vPower zeroValue negativeOneToPower onesMask (aVec s) (aPtr s)
            (cPtr s) k"
proof (induction k arbitrary: s)
  case 0
  then show ?case by (auto simp: batch_events_def)
next
  case (Suc k)
  let ?L = "\<lambda>p. batch_lanes blend pf vPower zeroValue negativeOneToPower onesMask (vec_at (aVec s) p)"
  from Suc.prems have b0: "aPtr s + 4 \<le> length (aVec s)" "cPtr s + 4 \<le> length (cVec s)"
    by simp_all
  from batch_step_ok [OF b0, of blend pf vPower zeroValue negativeOneToPower onesMask]
  obtain s1 where s1:
    "batch_step blend pf vPower zeroValue negativeOneToPower onesMask s = Inr s1"
    "aVec s1 = aVec s" "length (cVec s1) = length (cVec s)"
    "aPtr s1 = aPtr s + 4" "cPtr s1 = cPtr s + 4"
    "\<And>i. cVec s1 ! i =
           (if cPtr s \<le> i \<and> i < cPtr s + 4 then lane (snd (?L (aPtr s))) (i - cPtr s)
            else cVec s ! i)"
    "trace s1 = trace s @ [Load4 (aPtr s), Call_powf4 (fst (?L (aPtr s))) vPower, Store4 (cPtr s)]"
    by blast
  have b: "aPtr s1 + 4 * k \<le> length (aVec s1)" "cPtr s1 + 4 * k \<le> length (cVec s1)"
    using Suc.prems by (simp_all add: s1)
  from Suc.IH [OF b] obtain s' where s':
    "batch_iter blend pf vPower zeroValue negativeOneToPower onesMask k s1 = Inr s'"
    "aVec s' = aVec s1" "length (cVec s') = length (cVec s1)"
    "aPtr s' = aPtr s1 + 4 * k" "cPtr s' = cPtr s1 + 4 * k"
    "\<And>i. cVec s' ! i =
           (if cPtr s1 \<le> i \<and> i < cPtr s1 + 4 * k
            then lane (snd (batch_lanes blend pf vPower zeroValue negativeOneToPower onesMask
                              (vec_at (aVec s1) (aPtr s1 + 4 * ((i - cPtr s1) div 4)))))
                   ((i - cPtr s1) mod 4)
            else cVec s1 ! i)"
    "trace s' = trace s1 @
          batch_events blend pf vPower zeroValue negativeOneToPower onesMask (aVec s1) (aPtr s1)
            (cPtr s1) k"
    by blast
  have nth: "cVec s' ! i =
           (if cPtr s \<le> i \<and> i < cPtr s + 4 * Suc k
            then lane (snd (?L (aPtr s + 4 * ((i - cPtr s) div 4)))) ((i - cPtr s) mod 4)
            else cVec s ! i)" for i
  proof -
    consider "i < cPtr s" | "cPtr s \<le> i" "i < cPtr s + 4" | "cPtr s + 4 \<le> i"
      by arith
    then show ?thesis
    proof cases
      case 1
      then show ?thesis by (simp add: s'(6) s1)
    next
      case 2
      then have "(i - cPtr s) div 4 = 0" "(i - cPtr s) mod 4 = i - cPtr s"
        by simp_all
      with 2 show ?thesis by (simp add: s'(6) s1)
    next
      case 3
      then obtain d where d: "i = cPtr s + 4 + d"
        using le_Suc_ex by blast
      have "(4 + d) div 4 = Suc (d div 4)" "(4 + d) mod 4 = d mod 4"
        by simp_all
      then show ?thesis
        by (simp add: s'(6) s1 d add.assoc)
    qed
  qed
  show ?case
    using s1(1) s'(1-5) s'(7) nth
    by (simp add: s1 batch_events_Suc)
qed

lemma init_state_simps [simp]:
  "aVec (init_state cVector aVector) = aVector"
  "cVec (init_state cVector aVector) = cVector"
  "aPtr (init_state cVector aVector) = 0"
  "cPtr (init_state cVector aVector) = 0"
  "trace (init_state cVector aVector) = []"
  by (simp_all add: init_state_def)

lemma unat_quarterPoints: "unat ((num_points :: uint) div 4) = unat num_points div 4"
  by (simp add: unat_div)

lemma unat_quarterPoints_times_4:
  "unat ((num_points :: uint) div 4 * 4) = 4 * (unat num_points div 4)"
proof -
  have "unat num_points < 4294967296"
    using unsigned_less [of num_points, where ?'a = nat] by simp
  then have "unat num_points div 4 * 4 < 4294967296"
    by arith
  then show ?thesis
    by (simp add: unat_div unat_word_ariths)
qed

lemma generic_ok:
  assumes "unat num_points \<le> length aVector" "unat num_points \<le> length cVector"
  shows "\<exists>s'. volk_32f_s32f_power_32f_generic pf cVector aVector pwr num_points = Inr s' \<and>
        aVec s' = aVector \<and>
        length (cVec s') = length cVector \<and>
        aPtr s' = unat num_points \<and>
        cPtr s' = unat num_points \<and>
        (\<forall>i. cVec s' ! i =
           (if i < unat num_points then powf pf (aVector ! i) pwr else cVector ! i)) \<and>
        trace s' = scalar_events pf pwr aVector 0 0 (unat num_points)"
proof -
  let ?s0 = "init_state cVector aVector"
  have b: "aPtr ?s0 + unat num_points \<le> length (aVec ?s0)"
    "cPtr ?s0 + unat num_points \<le> length (cVec ?s0)"
    using assms by simp_all
  from scalar_iter_ok [OF b, of pf pwr] obtain s' where s':
    "scalar_iter pf pwr (unat num_points) ?s0 = Inr s'"
    "aVec s' = aVector" "length (cVec s') = length cVector"
    "aPtr s' = unat num_points" "cPtr s' = unat num_points"
    "\<And>i. cVec s' ! i = (if i < unat num_points then powf pf (aVector ! i) pwr else cVector ! i)"
    "trace s' = scalar_events pf pwr aVector 0 0 (unat num_points)"
    by auto
  then show ?thesis
    by (simp add: volk_32f_s32f_power_32f_generic_def scalar_loop_iter)
qed

lemma simd_off:
  "power_32f_a_simd blend False pf cVector aVector pwr num_points =
   volk_32f_s32f_power_32f_generic pf cVector aVector pwr num_points"
  by (simp add: power_32f_a_simd_def volk_32f_s32f_power_32f_generic_def)

lemma simd_on_ok:
  assumes "unat num_points \<le> length aVector" "unat num_points \<le> length cVector"
  shows "\<exists>s'. power_32f_a_simd blend True pf cVector aVector pwr num_points = Inr s' \<and>
        aVec s' = aVector \<and>
        length (cVec s') = length cVector \<and>
        aPtr s' = unat num_points \<and>
        cPtr s' = unat num_points \<and>
        (\<forall>i. cVec s' ! i =
           (if i < 4 * (unat num_points div 4)
            then lane (snd (batch_lanes blend pf (mm_set_ps1 pwr) mm_setzero_ps
                              (mm_set_ps1 (powf pf minus_one_f pwr)) (mm_set_ps1 one_f)
                              (vec_at aVector (4 * (i div 4)))))
                   (i mod 4)
            else if i < unat num_points then powf pf (aVector ! i) pwr
            else cVector ! i)) \<and>
        trace s' = Call_powf minus_one_f pwr #
          batch_events blend pf (mm_set_ps1 pwr) mm_setzero_ps
            (mm_set_ps1 (powf pf minus_one_f pwr)) (mm_set_ps1 one_f) aVector 0 0
            (unat num_points div 4) @
          scalar_events pf pwr aVector (4 * (unat num_points div 4)) (4 * (unat num_points div 4))
            (unat num_points mod 4)"
proof -
  let ?n = "unat num_points"
  let ?q = "?n div 4"
  let ?s1 = "(init_state cVector aVector)\<lparr>trace := [Call_powf minus_one_f pwr]\<rparr>"
  have q: "4 * ?q \<le> ?n" by simp
  have b1: "aPtr ?s1 + 4 * ?q \<le> length (aVec ?s1)" "cPtr ?s1 + 4 * ?q \<le> length (cVec ?s1)"
    using assms q by simp_all
  from batch_iter_ok [OF b1, of blend pf "mm_set_ps1 pwr" mm_setzero_ps
      "mm_set_ps1 (powf pf minus_one_f pwr)" "mm_set_ps1 one_f"]
  obtain s2 where s2:
    "batch_iter blend pf (mm_set_ps1 pwr) mm_setzero_ps (mm_set_ps1 (powf pf minus_one_f pwr))
       (mm_set_ps1 one_f) ?q ?s1 = Inr s2"
    "aVec s2 = aVector" "length (cVec s2) = length cVector"
    "aPtr s2 = 4 * ?q" "cPtr s2 = 4 * ?q"
    "\<And>i. cVec s2 ! i =
           (if i < 4 * ?q
            then lane (snd (batch_lanes blend pf (mm_set_ps1 pwr) mm_setzero_ps
                              (mm_set_ps1 (powf pf minus_one_f pwr)) (mm_set_ps1 one_f)
                              (vec_at aVector (4 * (i div 4)))))
                   (i mod 4)
            else cVector ! i)"
    "trace s2 = Call_powf minus_one_f pwr #
          batch_events blend pf (mm_set_ps1 pwr) mm_setzero_ps
            (mm_set_ps1 (powf pf minus_one_f pwr)) (mm_set_ps1 one_f) aVector 0 0 ?q"
    by auto
  have r: "?n - 4 * ?q = ?n mod 4"
    by (simp add: minus_mult_div_eq_mod)
  have b2: "aPtr s2 + ?n mod 4 \<le> length (aVec s2)" "cPtr s2 + ?n mod 4 \<le> length (cVec s2)"
    using assms by (simp_all add: s2)
  from scalar_iter_ok [OF b2, of pf pwr]
  obtain s3 where s3:
    "scalar_iter pf pwr (?n mod 4) s2 = Inr s3"
    "aVec s3 = aVec s2" "length (cVec s3) = length (cVec s2)"
    "aPtr s3 = aPtr s2 + ?n mod 4" "cPtr s3 = cPtr s2 + ?n mod 4"
    "\<And>i. cVec s3 ! i =
           (if cPtr s2 \<le> i \<and> i < cPtr s2 + ?n mod 4
            then powf pf (aVec s2 ! (aPtr s2 + (i - cPtr s2))) pwr
            else cVec s2 ! i)"
    "trace s3 = trace s2 @ scalar_events pf pwr (aVec s2) (aPtr s2) (cPtr s2) (?n mod 4)"
    by blast
  have run: "power_32f_a_simd blend True pf cVector aVector pwr num_points = Inr s3"
    using s2(1) s3(1)
    by (simp add: power_32f_a_simd_def Let_def batch_loop_iter scalar_loop_iter
        unat_quarterPoints unat_quarterPoints_times_4 r)
  have nth: "cVec s3 ! i =
           (if i < 4 * ?q
            then lane (snd (batch_lanes blend pf (mm_set_ps1 pwr) mm_setzero_ps
                              (mm_set_ps1 (powf pf minus_one_f pwr)) (mm_set_ps1 one_f)
                              (vec_at aVector (4 * (i div 4)))))
                   (i mod 4)
            else if i < ?n then powf pf (aVector ! i) pwr
            else cVector ! i)" for i
  proof -
    have "4 * ?q + ?n mod 4 = ?n" by simp
    then show ?thesis
      by (simp add: s3(6) s2 del: mult_div_mod_eq)
  qed
  show ?thesis
    using run nth by (simp add: s3 s2)
qed

lemma all_ones: "(0xFFFFFFFF :: 32 word) = - 1"
  by simp

lemma select_lane:
  "(NOT (if b then 0xFFFFFFFF else 0) AND x) OR ((if b then 0xFFFFFFFF else 0) AND y) =
   (if bit (if b then 0xFFFFFFFF else 0 :: 32 word) 31 then y else (x :: 32 word))"
  unfolding all_ones by simp

lemma blend_cmplt:
  "blend_sse x y (mm_cmplt_ps a b) = blend_sse4_1 x y (mm_cmplt_ps a b)"
  by (cases x; cases y; cases a; cases b)
     (simp only: blend_sse_def blend_sse4_1_def mm_cmplt_ps_def mm_or_ps_def mm_andnot_ps_def
        mm_and_ps_def mm_blendv_ps_def map2_ps.simps map3_ps.simps select_lane)

lemma blend_sse4_1_cmplt:
  "blend_sse4_1 (M128 x0 x1 x2 x3) (M128 y0 y1 y2 y3) (mm_cmplt_ps (M128 a0 a1 a2 a3) mm_setzero_ps) =
     M128 (if float_lt a0 0 then y0 else x0) (if float_lt a1 0 then y1 else x1)
          (if float_lt a2 0 then y2 else x2) (if float_lt a3 0 then y3 else x3)"
  unfolding blend_sse4_1_def mm_cmplt_ps_def mm_blendv_ps_def mm_setzero_ps_def all_ones
  by simp

lemma batch_lanes_sse4_1:
  "batch_lanes blend_sse4_1 pf vPower mm_setzero_ps (mm_set_ps1 c) (mm_set_ps1 one_f) v =
     (map_ps (masked_abs pf) v,
      mm_mul_ps pf (map_ps (correction_factor c) v) (powf4 pf (map_ps (masked_abs pf) v) vPower))"
proof (cases v)
  case (M128 x0 x1 x2 x3)
  have z: "mm_sub_ps pf mm_setzero_ps (M128 x0 x1 x2 x3) =
           M128 (sub_ss pf 0 x0) (sub_ss pf 0 x1) (sub_ss pf 0 x2) (sub_ss pf 0 x3)"
    by (simp add: mm_sub_ps_def mm_setzero_ps_def)
  show ?thesis
    unfolding M128 batch_lanes_def Let_def z
    by (simp add: blend_sse4_1_cmplt mm_set_ps1_def masked_abs_def correction_factor_def)
qed

lemma batch_lanes_blend:
  "batch_lanes blend_sse pf vPower zeroValue negativeOneToPower onesMask v =
   batch_lanes blend_sse4_1 pf vPower zeroValue negativeOneToPower onesMask v"
  by (simp add: batch_lanes_def Let_def blend_cmplt)

lemma batch_step_blend:
  "batch_step blend_sse pf vPower zeroValue negativeOneToPower onesMask s =
   batch_step blend_sse4_1 pf vPower zeroValue negativeOneToPower onesMask s"
  unfolding batch_step_def batch_lanes_blend by (rule refl)

lemma batch_iter_blend:
  "batch_iter blend_sse pf vPower zeroValue negativeOneToPower onesMask k s =
   batch_iter blend_sse4_1 pf vPower zeroValue negativeOneToPower onesMask k s"
  by (induction k arbitrary: s) (simp_all add: batch_step_blend split: sum.splits)

lemma simd_blend:
  "power_32f_a_simd blend_sse have_simdmath pf cVector aVector pwr num_points =
   power_32f_a_simd blend_sse4_1 have_simdmath pf cVector aVector pwr num_points"
  by (simp add: power_32f_a_simd_def Let_def batch_loop_iter batch_iter_blend)

lemma lane_map2_ps: "j < 4 \<Longrightarrow> lane (map2_ps f a b) j = f (lane a j) (lane b j)"
proof (cases a; cases b)
  fix x0 x1 x2 x3 y0 y1 y2 y3
  assume j: "j < 4" and a: "a = M128 x0 x1 x2 x3" and b: "b = M128 y0 y1 y2 y3"
  from j consider "j = 0" | "j = 1" | "j = 2" | "j = 3" by arith
  then show ?thesis by cases (simp_all add: a b)
qed

lemma lane_map_ps: "j < 4 \<Longrightarrow> lane (map_ps f a) j = f (lane a j)"
proof (cases a)
  fix x0 x1 x2 x3
  assume j: "j < 4" and a: "a = M128 x0 x1 x2 x3"
  from j consider "j = 0" | "j = 1" | "j = 2" | "j = 3" by arith
  then show ?thesis by cases (simp_all add: a)
qed

lemma lane_vec_at: "j < 4 \<Longrightarrow> lane (vec_at buf p) j = buf ! (p + j)"
proof -
  assume j: "j < 4"
  from j consider "j = 0" | "j = 1" | "j = 2" | "j = 3" by arith
  then show ?thesis by cases (simp_all add: vec_at_def)
qed

lemma read_indices_append: "read_indices (xs @ ys) = read_indices xs @ read_indices ys"
  by (simp add: read_indices_def)

lemma written_indices_append:
  "written_indices (xs @ ys) = written_indices xs @ written_indices ys"
  by (simp add: written_indices_def)

lemma read_scalar_events: "read_indices (scalar_events pf pwr buf a c k) = [a..<a + k]"
proof (induction k arbitrary: a c)
  case 0
  then show ?case by (simp add: scalar_events_def read_indices_def)
next
  case (Suc k)
  have "[a..<a + Suc k] = a # [Suc a..<Suc a + k]"
    by (simp add: upt_conv_Cons del: upt_Suc)
  with Suc show ?case
    by (simp add: scalar_events_Suc read_indices_append) (simp add: read_indices_def)
qed

lemma written_scalar_events: "written_indices (scalar_events pf pwr buf a c k) = [c..<c + k]"
proof (induction k arbitrary: a c)
  case 0
  then show ?case by (simp add: scalar_events_def written_indices_def)
next
  case (Suc k)
  have "[c..<c + Suc k] = c # [Suc c..<Suc c + k]"
    by (simp add: upt_conv_Cons del: upt_Suc)
  with Suc show ?case
    by (simp add: scalar_events_Suc written_indices_append) (simp add: written_indices_def)
qed

lemma upt_four: "[a..<a + 4 * Suc k] = a # (a + 1) # (a + 2) # (a + 3) # [a + 4..<a + 4 + 4 * k]"
proof -
  have "[Suc (Suc (Suc (Suc a)))..<a + (4 + 4 * k)] = [a + 4..<a + 4 + 4 * k]"
    by (rule arg_cong2 [where f = upt]) simp_all
  then show ?thesis
    by (simp add: upt_conv_Cons del: upt_Suc)
qed

lemma read_batch_events:
  "read_indices (batch_events blend pf vPower zeroValue negativeOneToPower onesMask buf a c k) =
     [a..<a + 4 * k]"
proof (induction k arbitrary: a c)
  case 0
  then show ?case by (simp add: batch_events_def read_indices_def)
next
  case (Suc k)
  show ?case
    unfolding batch_events_Suc read_indices_append Suc upt_four
    by (simp add: read_indices_def)
qed

lemma written_batch_events:
  "written_indices (batch_events blend pf vPower zeroValue negativeOneToPower onesMask buf a c k) =
     [c..<c + 4 * k]"
proof (induction k arbitrary: a c)
  case 0
  then show ?case by (simp add: batch_events_def written_indices_def)
next
  case (Suc k)
  show ?case
    unfolding batch_events_Suc written_indices_append Suc upt_four
    by (simp add: written_indices_def)
qed

lemma scalar_loop_zero: "scalar_loop pf pwr 0 0 s = Inr s"
  by (simp add: scalar_loop_iter)

lemma batch_loop_zero:
  "batch_loop blend pf vPower zeroValue negativeOneToPower onesMask 0 0 s = Inr s"
  by (simp add: batch_loop_iter)

lemma simd_zero:
  "power_32f_a_simd blend have_simdmath pf cVector aVector pwr 0 =
     Inr ((init_state cVector aVector)
            \<lparr>trace := if have_simdmath then [Call_powf minus_one_f pwr] else []\<rparr>)"
  by (simp add: power_32f_a_simd_def Let_def scalar_loop_zero batch_loop_zero init_state_def)

section \<open>Properties of the kernels\<close>

lemma scalar_events_diag:
  "scalar_events pf pwr buf a a k =
     concat (map (\<lambda>i. [Load i, Call_powf (buf ! i) pwr, Store i]) [a..<a + k])"
proof -
  have "[a..<a + k] = map (\<lambda>j. a + j) [0..<k]"
    by (simp add: map_add_upt add.commute)
  then show ?thesis
    by (simp add: scalar_events_def comp_def)
qed

lemma batch_events_sse4_1:
  "batch_events blend_sse4_1 pf vPower mm_setzero_ps (mm_set_ps1 c) (mm_set_ps1 one_f) buf 0 0 k =
     concat (map (\<lambda>j. [Load4 (4 * j),
                        Call_powf4 (map_ps (masked_abs pf) (vec_at buf (4 * j))) vPower,
                        Store4 (4 * j)]) [0..<k])"
  by (simp add: batch_events_def batch_lanes_sse4_1)

lemma powf_calls_append: "powf_calls (xs @ ys) = powf_calls xs @ powf_calls ys"
  by (simp add: powf_calls_def)

lemma powf_calls_scalar_events:
  "powf_calls (scalar_events pf pwr buf a c k) = map (\<lambda>i. (buf ! i, pwr)) [a..<a + k]"
proof (induction k arbitrary: a c)
  case 0
  then show ?case by (simp add: scalar_events_def powf_calls_def)
next
  case (Suc k)
  have "[a..<a + Suc k] = a # [Suc a..<Suc a + k]"
    by (simp add: upt_conv_Cons del: upt_Suc)
  with Suc show ?case
    by (simp add: scalar_events_Suc powf_calls_append) (simp add: powf_calls_def)
qed

lemma powf_calls_batch_events:
  "powf_calls (batch_events blend pf vPower zeroValue negativeOneToPower onesMask buf a c k) = []"
  by (induction k arbitrary: a c)
     (simp_all add: batch_events_def powf_calls_def)

lemma lane_batch_sse4_1:
  assumes "i < 4 * q"
  shows "lane (snd (batch_lanes blend_sse4_1 pf vPower mm_setzero_ps (mm_set_ps1 c)
                      (mm_set_ps1 one_f) (vec_at buf (4 * (i div 4))))) (i mod 4) =
         mul_ss pf (correction_factor c (buf ! i))
           (lane (powf4 pf (map_ps (masked_abs pf) (vec_at buf (4 * (i div 4)))) vPower) (i mod 4))"
proof -
  have j: "i mod 4 < 4" by simp
  have "lane (vec_at buf (4 * (i div 4))) (i mod 4) = buf ! i"
    by (simp add: lane_vec_at [OF j])
  then show ?thesis
    by (simp add: batch_lanes_sse4_1 mm_mul_ps_def lane_map2_ps [OF j] lane_map_ps [OF j])
qed

lemma simd_kernels_ok:
  assumes "unat num_points \<le> length aVector" "unat num_points \<le> length cVector"
  shows "\<exists>s'. volk_32f_s32f_power_32f_a_sse4_1 True pf cVector aVector pwr num_points = Inr s' \<and>
        volk_32f_s32f_power_32f_a_sse True pf cVector aVector pwr num_points = Inr s' \<and>
        aVec s' = aVector \<and>
        length (cVec s') = length cVector \<and>
        (\<forall>i. cVec s' ! i =
           (if i < 4 * (unat num_points div 4)
            then mul_ss pf (correction_factor (powf pf minus_one_f pwr) (aVector ! i))
                   (lane (powf4 pf (map_ps (masked_abs pf) (vec_at aVector (4 * (i div 4))))
                            (mm_set_ps1 pwr)) (i mod 4))
            else if i < unat num_points then powf pf (aVector ! i) pwr
            else cVector ! i)) \<and>
        trace s' = Call_powf minus_one_f pwr #
          batch_events blend_sse4_1 pf (mm_set_ps1 pwr) mm_setzero_ps
            (mm_set_ps1 (powf pf minus_one_f pwr)) (mm_set_ps1 one_f) aVector 0 0
            (unat num_points div 4) @
          scalar_events pf pwr aVector (4 * (unat num_points div 4)) (4 * (unat num_points div 4))
            (unat num_points mod 4)"
proof -
  from simd_on_ok [OF assms, of blend_sse4_1 pf pwr] obtain s' where s':
    "power_32f_a_simd blend_sse4_1 True pf cVector aVector pwr num_points = Inr s'"
    "aVec s' = aVector" "length (cVec s') = length cVector"
    "\<And>i. cVec s' ! i =
           (if i < 4 * (unat num_points div 4)
            then lane (snd (batch_lanes blend_sse4_1 pf (mm_set_ps1 pwr) mm_setzero_ps
                              (mm_set_ps1 (powf pf minus_one_f pwr)) (mm_set_ps1 one_f)
                              (vec_at aVector (4 * (i div 4)))))
                   (i mod 4)
            else if i < unat num_points then powf pf (aVector ! i) pwr
            else cVector ! i)"
    "trace s' = Call_powf minus_one_f pwr #
          batch_events blend_sse4_1 pf (mm_set_ps1 pwr) mm_setzero_ps
            (mm_set_ps1 (powf pf minus_one_f pwr)) (mm_set_ps1 one_f) aVector 0 0
            (unat num_points div 4) @
          scalar_events pf pwr aVector (4 * (unat num_points div 4)) (4 * (unat num_points div 4))
            (unat num_points mod 4)"
    by blast
  have nth: "cVec s' ! i =
           (if i < 4 * (unat num_points div 4)
            then mul_ss pf (correction_factor (powf pf minus_one_f pwr) (aVector ! i))
                   (lane (powf4 pf (map_ps (masked_abs pf) (vec_at aVector (4 * (i div 4))))
                            (mm_set_ps1 pwr)) (i mod 4))
            else if i < unat num_points then powf pf (aVector ! i) pwr
            else cVector ! i)" for i
    unfolding s'(4) by (simp add: lane_batch_sse4_1)
  show ?thesis
    using s'(1-3,5) nth
    by (simp add: volk_32f_s32f_power_32f_a_sse4_1_def volk_32f_s32f_power_32f_a_sse_def
        simd_blend)
qed

lemma quarter_split: "4 * (n div 4) + n mod 4 = (n :: nat)"
  by simp

lemma simd_trace_indices:
  "read_indices (Call_powf x y #
     batch_events blend pf vPower zeroValue negativeOneToPower onesMask buf 0 0 (n div 4) @
     scalar_events pf pwr buf (4 * (n div 4)) (4 * (n div 4)) (n mod 4)) = [0..<n]"
  "written_indices (Call_powf x y #
     batch_events blend pf vPower zeroValue negativeOneToPower onesMask buf 0 0 (n div 4) @
     scalar_events pf pwr buf (4 * (n div 4)) (4 * (n div 4)) (n mod 4)) = [0..<n]"
proof -
  have "[0..<4 * (n div 4) + n mod 4] =
        [0..<4 * (n div 4)] @ [4 * (n div 4)..<4 * (n div 4) + n mod 4]"
    by (rule upt_add_eq_append) simp
  then have u: "[0..<4 * (n div 4)] @ [4 * (n div 4)..<n] = [0..<n]"
    by (simp only: quarter_split)
  have c: "read_indices (e # tr) = loads_of e @ read_indices tr"
    "written_indices (e # tr) = stores_of e @ written_indices tr" for e tr
    by (simp_all add: read_indices_def written_indices_def)
  show "read_indices (Call_powf x y #
     batch_events blend pf vPower zeroValue negativeOneToPower onesMask buf 0 0 (n div 4) @
     scalar_events pf pwr buf (4 * (n div 4)) (4 * (n div 4)) (n mod 4)) = [0..<n]"
    using u by (simp add: c read_indices_append read_batch_events read_scalar_events)
  show "written_indices (Call_powf x y #
     batch_events blend pf vPower zeroValue negativeOneToPower onesMask buf 0 0 (n div 4) @
     scalar_events pf pwr buf (4 * (n div 4)) (4 * (n div 4)) (n mod 4)) = [0..<n]"
    using u by (simp add: c written_indices_append written_batch_events written_scalar_events)
qed

lemma take_drop_from_nth:
  assumes "n \<le> length xs" "length ys = length xs"
    and "\<And>i. ys ! i = (if i < n then g i else xs ! i)"
  shows "take n ys = map g [0..<n]" "drop n ys = drop n xs"
proof -
  show "take n ys = map g [0..<n]"
    using assms by (intro nth_equalityI) simp_all
  show "drop n ys = drop n xs"
    using assms by (intro nth_equalityI) simp_all
qed

lemma vec_at_take: "p + 4 \<le> n \<Longrightarrow> vec_at (take n buf) p = vec_at buf p"
  by (simp add: vec_at_def)

lemma simd_element_take:
  assumes "i < n"
  shows "simd_element pf pwr n (take n buf) i = simd_element pf pwr n buf i"
proof (cases "i < 4 * (n div 4)")
  case True
  then have "i div 4 < n div 4" by arith
  then have "4 * (i div 4) + 4 \<le> 4 * (n div 4)" by arith
  also have "\<dots> \<le> n" by simp
  finally have "vec_at (take n buf) (4 * (i div 4)) = vec_at buf (4 * (i div 4))"
    by (rule vec_at_take)
  with True assms show ?thesis by (simp add: simd_element_def)
next
  case False
  with assms show ?thesis by (simp add: simd_element_def)
qed

lemma generic_determined:
  assumes "unat num_points \<le> length aVector" "unat num_points \<le> length cVector"
  shows "\<exists>s'. volk_32f_s32f_power_32f_generic pf cVector aVector pwr num_points = Inr s' \<and>
        aVec s' = aVector \<and>
        take (unat num_points) (cVec s') =
          map (\<lambda>i. powf pf (take (unat num_points) aVector ! i) pwr) [0..<unat num_points] \<and>
        drop (unat num_points) (cVec s') = drop (unat num_points) cVector \<and>
        read_indices (trace s') = [0..<unat num_points] \<and>
        written_indices (trace s') = [0..<unat num_points]"
proof -
  from generic_ok [OF assms, of pf pwr] obtain s' where s':
    "volk_32f_s32f_power_32f_generic pf cVector aVector pwr num_points = Inr s'"
    "aVec s' = aVector" "length (cVec s') = length cVector"
    "\<And>i. cVec s' ! i = (if i < unat num_points then powf pf (aVector ! i) pwr else cVector ! i)"
    "trace s' = scalar_events pf pwr aVector 0 0 (unat num_points)"
    by blast
  have "take (unat num_points) (cVec s') = map (\<lambda>i. powf pf (aVector ! i) pwr) [0..<unat num_points]"
    "drop (unat num_points) (cVec s') = drop (unat num_points) cVector"
    using take_drop_from_nth [OF assms(2) s'(3), of "\<lambda>i. powf pf (aVector ! i) pwr"] s'(4)
    by simp_all
  then show ?thesis
    using s'(1,2,5) by (simp add: read_scalar_events written_scalar_events)
qed

lemma simd_determined:
  assumes "unat num_points \<le> length aVector" "unat num_points \<le> length cVector"
  shows "\<exists>s'. volk_32f_s32f_power_32f_a_sse4_1 True pf cVector aVector pwr num_points = Inr s' \<and>
        volk_32f_s32f_power_32f_a_sse True pf cVector aVector pwr num_points = Inr s' \<and>
        aVec s' = aVector \<and>
        take (unat num_points) (cVec s') =
          map (simd_element pf pwr (unat num_points) (take (unat num_points) aVector))
            [0..<unat num_points] \<and>
        drop (unat num_points) (cVec s') = drop (unat num_points) cVector \<and>
        read_indices (trace s') = [0..<unat num_points] \<and>
        written_indices (trace s') = [0..<unat num_points]"
proof -
  let ?n = "unat num_points"
  from simd_kernels_ok [OF assms, of pf pwr] obtain s' where s':
    "volk_32f_s32f_power_32f_a_sse4_1 True pf cVector aVector pwr num_points = Inr s'"
    "volk_32f_s32f_power_32f_a_sse True pf cVector aVector pwr num_points = Inr s'"
    "aVec s' = aVector" "length (cVec s') = length cVector"
    "\<And>i. cVec s' ! i =
           (if i < 4 * (?n div 4)
            then mul_ss pf (correction_factor (powf pf minus_one_f pwr) (aVector ! i))
                   (lane (powf4 pf (map_ps (masked_abs pf) (vec_at aVector (4 * (i div 4))))
                            (mm_set_ps1 pwr)) (i mod 4))
            else if i < ?n then powf pf (aVector ! i) pwr
            else cVector ! i)"
    "trace s' = Call_powf minus_one_f pwr #
          batch_events blend_sse4_1 pf (mm_set_ps1 pwr) mm_setzero_ps
            (mm_set_ps1 (powf pf minus_one_f pwr)) (mm_set_ps1 one_f) aVector 0 0 (?n div 4) @
          scalar_events pf pwr aVector (4 * (?n div 4)) (4 * (?n div 4)) (?n mod 4)"
    by blast
  have q: "4 * (?n div 4) \<le> ?n" by simp
  have nth: "cVec s' ! i = (if i < ?n then simd_element pf pwr ?n aVector i else cVector ! i)" for i
  proof (cases "i < 4 * (?n div 4)")
    case True
    with q have "i < ?n" by arith
    with True show ?thesis by (simp add: s'(5) simd_element_def)
  next
    case False
    then show ?thesis by (simp add: s'(5) simd_element_def)
  qed
  have "take ?n (cVec s') = map (simd_element pf pwr ?n aVector) [0..<?n]"
    and d: "drop ?n (cVec s') = drop ?n cVector"
    using take_drop_from_nth [OF assms(2) s'(4), of "simd_element pf pwr ?n aVector"] nth
    by simp_all
  then have t: "take ?n (cVec s') = map (simd_element pf pwr ?n (take ?n aVector)) [0..<?n]"
    by (simp add: simd_element_take)
  show ?thesis
    using s'(1-3) t d by (simp add: s'(6) simd_trace_indices)
qed

lemma kernels_determined:
  assumes "unat num_points \<le> length aVector" "unat num_points \<le> length cVector"
  shows "\<exists>s'. volk_32f_s32f_power_32f_a_sse4_1 have_simdmath pf cVector aVector pwr num_points = Inr s' \<and>
        volk_32f_s32f_power_32f_a_sse have_simdmath pf cVector aVector pwr num_points = Inr s' \<and>
        aVec s' = aVector \<and>
        take (unat num_points) (cVec s') =
          (if have_simdmath
           then map (simd_element pf pwr (unat num_points) (take (unat num_points) aVector))
                  [0..<unat num_points]
           else map (\<lambda>i. powf pf (take (unat num_points) aVector ! i) pwr) [0..<unat num_points]) \<and>
        drop (unat num_points) (cVec s') = drop (unat num_points) cVector \<and>
        read_indices (trace s') = [0..<unat num_points] \<and>
        written_indices (trace s') = [0..<unat num_points]"
proof (cases have_simdmath)
  case True
  with simd_determined [OF assms, of pf pwr] show ?thesis by simp
next
  case False
  with generic_determined [OF assms, of pf pwr] show ?thesis
    by (simp add: volk_32f_s32f_power_32f_a_sse4_1_def volk_32f_s32f_power_32f_a_sse_def simd_off)
qed

lemma float_lt_zero: "float_lt x 0 = (sign_bit x \<and> magnitude x \<noteq> 0 \<and> \<not> is_nan x)"
  by (auto simp: float_lt_def is_nan_def magnitude_def sign_bit_def)

lemma neg_zero_not_lt: "\<not> float_lt neg_zero_f 0"
  by (simp add: float_lt_def is_nan_def magnitude_def sign_bit_def neg_zero_f_def)


lemma neg_inf_lt_zero: "float_lt neg_inf_f 0"
  by (simp add: float_lt_def is_nan_def magnitude_def sign_bit_def neg_inf_f_def)


lemma neg_inf_half_diverges:
  assumes "unat num_points \<le> length aVector" "unat num_points \<le> length cVector"
    and "i < 4 * (unat num_points div 4)"
    and "aVector ! i = neg_inf_f"
    and "pow_special_cases pf"
  shows "output_at (volk_32f_s32f_power_32f_generic pf cVector aVector half_f num_points) i =
           Some pos_inf_f \<and>
         (\<exists>y. is_nan y \<and>
            output_at (volk_32f_s32f_power_32f_a_sse4_1 True pf cVector aVector half_f num_points) i
              = Some y \<and>
            output_at (volk_32f_s32f_power_32f_a_sse True pf cVector aVector half_f num_points) i
              = Some y)"
proof -
  have q: "4 * (unat num_points div 4) \<le> unat num_points" by simp
  with assms(3) have i: "i < unat num_points" by arith
  from generic_ok [OF assms(1,2), of pf half_f] obtain g where g:
    "volk_32f_s32f_power_32f_generic pf cVector aVector half_f num_points = Inr g"
    "\<And>i. cVec g ! i = (if i < unat num_points then powf pf (aVector ! i) half_f else cVector ! i)"
    by blast
  from simd_kernels_ok [OF assms(1,2), of pf half_f] obtain s where s:
    "volk_32f_s32f_power_32f_a_sse4_1 True pf cVector aVector half_f num_points = Inr s"
    "volk_32f_s32f_power_32f_a_sse True pf cVector aVector half_f num_points = Inr s"
    "\<And>i. cVec s ! i =
           (if i < 4 * (unat num_points div 4)
            then mul_ss pf (correction_factor (powf pf minus_one_f half_f) (aVector ! i))
                   (lane (powf4 pf (map_ps (masked_abs pf) (vec_at aVector (4 * (i div 4))))
                            (mm_set_ps1 half_f)) (i mod 4))
            else if i < unat num_points then powf pf (aVector ! i) half_f
            else cVector ! i)"
    by blast
  have "cVec g ! i = pos_inf_f"
    using assms(4,5) i by (simp add: g(2) pow_special_cases_def)
  moreover have "is_nan (cVec s ! i)"
    using assms(3,4,5) neg_inf_lt_zero
    by (simp add: s(3) pow_special_cases_def correction_factor_def)
  ultimately show ?thesis
    by (simp add: output_at_def g(1) s(1,2))
qed

section \<open>The claims\<close>

text \<open>
  C1. The generic kernel, for every count and every index \<open>i\<close> below it, writes
  \<open>output[i] = powf(input[i], exponent)\<close>, one element after the other in index order
  \<open>0, 1, ...\<close>: given buffers that hold \<open>num_points\<close> elements it returns without a fault,
  the output has the length it had, each of its first \<open>num_points\<close> elements is \<^verbatim>\<open>powf\<close> of the
  input element, and the trace is load, call of \<^verbatim>\<open>powf\<close>, store for index 0, then for index 1,
  and so on.
\<close>

theorem generic_elementwise:
  assumes "unat num_points \<le> length aVector" "unat num_points \<le> length cVector"
  shows "\<exists>s'. volk_32f_s32f_power_32f_generic pf cVector aVector pwr num_points = Inr s' \<and>
           length (cVec s') = length cVector \<and>
           (\<forall>i < unat num_points. cVec s' ! i = powf pf (aVector ! i) pwr) \<and>
           trace s' =
             concat (map (\<lambda>i. [Load i, Call_powf (aVector ! i) pwr, Store i])
                       [0..<unat num_points])"
proof -
  from generic_ok [OF assms, of pf pwr] obtain s' where
    "volk_32f_s32f_power_32f_generic pf cVector aVector pwr num_points = Inr s'"
    "length (cVec s') = length cVector"
    "\<And>i. cVec s' ! i = (if i < unat num_points then powf pf (aVector ! i) pwr else cVector ! i)"
    "trace s' = scalar_events pf pwr aVector 0 0 (unat num_points)"
    by blast
  then show ?thesis
    by (simp add: scalar_events_def)
qed

theorem generic_elementwise_witness:
  "\<forall>pf pwr. \<exists>s'.
     volk_32f_s32f_power_32f_generic pf [0, 0, 0] [0x40000000, 0x40400000, 0xC0800000] pwr 3
       = Inr s' \<and>
     cVec s' = [powf pf 0x40000000 pwr, powf pf 0x40400000 pwr, powf pf 0xC0800000 pwr] \<and>
     trace s' =
       [Load 0, Call_powf 0x40000000 pwr, Store 0,
        Load 1, Call_powf 0x40400000 pwr, Store 1,
        Load 2, Call_powf 0xC0800000 pwr, Store 2]"
proof (intro allI)
  fix pf :: platform and pwr :: float
  let ?a = "[0x40000000, 0x40400000, 0xC0800000] :: float list"
  let ?c = "[0, 0, 0] :: float list"
  have h: "unat (3 :: uint) \<le> length ?a" "unat (3 :: uint) \<le> length ?c"
    by simp_all
  from generic_elementwise [OF h, of pf pwr] obtain s' where s':
    "volk_32f_s32f_power_32f_generic pf ?c ?a pwr 3 = Inr s'"
    "length (cVec s') = 3"
    "\<forall>i < 3. cVec s' ! i = powf pf (?a ! i) pwr"
    "trace s' = concat (map (\<lambda>i. [Load i, Call_powf (?a ! i) pwr, Store i]) [0..<3])"
    by auto
  from s'(3) have "cVec s' ! 0 = powf pf 0x40000000 pwr" "cVec s' ! 1 = powf pf 0x40400000 pwr"
    "cVec s' ! 2 = powf pf 0xC0800000 pwr"
    by simp_all
  with s'(2) have "cVec s' = [powf pf 0x40000000 pwr, powf pf 0x40400000 pwr, powf pf 0xC0800000 pwr]"
    by (intro nth_equalityI) (auto simp: less_Suc_eq numeral_3_eq_3 numeral_2_eq_2)
  moreover have "[0..<3] = [0, 1, 2]"
    by (simp add: upt_conv_Cons del: upt_Suc)
  ultimately show "\<exists>s'.
     volk_32f_s32f_power_32f_generic pf ?c ?a pwr 3 = Inr s' \<and>
     cVec s' = [powf pf 0x40000000 pwr, powf pf 0x40400000 pwr, powf pf 0xC0800000 pwr] \<and>
     trace s' =
       [Load 0, Call_powf 0x40000000 pwr, Store 0,
        Load 1, Call_powf 0x40400000 pwr, Store 1,
        Load 2, Call_powf 0xC0800000 pwr, Store 2]"
    using s'(1,4) by simp
qed




text \<open>
  C3. Built with \<^verbatim>\<open>LV_HAVE_LIB_SIMDMATH\<close>, each SSE kernel runs exactly \<open>num_points div 4\<close>
  batches, batch \<open>k\<close> loading and storing the four consecutive elements from \<open>4 * k\<close>, and
  then handles the remaining \<open>num_points mod 4\<close> elements one at a time, from index
  \<open>4 * (num_points div 4)\<close>, with \<open>output[i] = powf(input[i], exponent)\<close>; the indices stored
  are \<open>0, 1, ..., num_points - 1\<close>, each once. The trace says so: the one call
  \<^verbatim>\<open>powf(-1, power)\<close>, then load, \<^verbatim>\<open>powf4\<close>, store for every batch, then load, \<^verbatim>\<open>powf\<close>, store for
  every element of the tail. The output buffer says so too: it keeps its length, every
  element below \<open>4 * (num_points div 4)\<close> holds the lane of its batch, every element of the
  tail holds \<^verbatim>\<open>powf\<close> of its input, and the elements from \<open>num_points\<close> on are what they were.
\<close>

theorem simd_batches_then_scalar_tail:
  assumes "unat num_points \<le> length aVector" "unat num_points \<le> length cVector"
  shows "\<exists>s'. volk_32f_s32f_power_32f_a_sse4_1 True pf cVector aVector pwr num_points = Inr s' \<and>
           volk_32f_s32f_power_32f_a_sse True pf cVector aVector pwr num_points = Inr s' \<and>
           trace s' =
             Call_powf minus_one_f pwr #
             concat (map (\<lambda>k. [Load4 (4 * k),
                                Call_powf4 (map_ps (masked_abs pf) (vec_at aVector (4 * k)))
                                  (mm_set_ps1 pwr),
                                Store4 (4 * k)])
                       [0..<unat num_points div 4]) @
             concat (map (\<lambda>i. [Load i, Call_powf (aVector ! i) pwr, Store i])
                       [4 * (unat num_points div 4)..<unat num_points]) \<and>
           written_indices (trace s') = [0..<unat num_points] \<and>
           length (cVec s') = length cVector \<and>
           (\<forall>i. i < 4 * (unat num_points div 4) \<longrightarrow>
                cVec s' ! i =
                  mul_ss pf (correction_factor (powf pf minus_one_f pwr) (aVector ! i))
                    (lane (powf4 pf (map_ps (masked_abs pf) (vec_at aVector (4 * (i div 4))))
                             (mm_set_ps1 pwr))
                       (i mod 4))) \<and>
           (\<forall>i. 4 * (unat num_points div 4) \<le> i \<and> i < unat num_points \<longrightarrow>
                cVec s' ! i = powf pf (aVector ! i) pwr) \<and>
           (\<forall>i. unat num_points \<le> i \<longrightarrow> cVec s' ! i = cVector ! i)"
proof -
  let ?n = "unat num_points"
  from simd_kernels_ok [OF assms, of pf pwr] obtain s' where s':
    "volk_32f_s32f_power_32f_a_sse4_1 True pf cVector aVector pwr num_points = Inr s'"
    "volk_32f_s32f_power_32f_a_sse True pf cVector aVector pwr num_points = Inr s'"
    "length (cVec s') = length cVector"
    "\<And>i. cVec s' ! i =
           (if i < 4 * (?n div 4)
            then mul_ss pf (correction_factor (powf pf minus_one_f pwr) (aVector ! i))
                   (lane (powf4 pf (map_ps (masked_abs pf) (vec_at aVector (4 * (i div 4))))
                            (mm_set_ps1 pwr)) (i mod 4))
            else if i < ?n then powf pf (aVector ! i) pwr
            else cVector ! i)"
    "trace s' = Call_powf minus_one_f pwr #
          batch_events blend_sse4_1 pf (mm_set_ps1 pwr) mm_setzero_ps
            (mm_set_ps1 (powf pf minus_one_f pwr)) (mm_set_ps1 one_f) aVector 0 0 (?n div 4) @
          scalar_events pf pwr aVector (4 * (?n div 4)) (4 * (?n div 4)) (?n mod 4)"
    by blast
  have w: "written_indices (trace s') = [0..<?n]"
    unfolding s'(5) by (rule simd_trace_indices)
  have t: "trace s' =
             Call_powf minus_one_f pwr #
             concat (map (\<lambda>k. [Load4 (4 * k),
                                Call_powf4 (map_ps (masked_abs pf) (vec_at aVector (4 * k)))
                                  (mm_set_ps1 pwr),
                                Store4 (4 * k)])
                       [0..<?n div 4]) @
             concat (map (\<lambda>i. [Load i, Call_powf (aVector ! i) pwr, Store i])
                       [4 * (?n div 4)..<?n])"
    unfolding s'(5) batch_events_sse4_1 scalar_events_diag quarter_split by (rule refl)
  have q: "4 * (?n div 4) \<le> ?n" by simp
  have beyond: "cVec s' ! i = cVector ! i" if "?n \<le> i" for i
  proof -
    from that q have "\<not> i < 4 * (?n div 4)" "\<not> i < ?n" by arith+
    then show ?thesis by (simp add: s'(4))
  qed
  show ?thesis
    using s'(1-3) w t beyond by (simp add: s'(4))
qed

theorem simd_batches_then_scalar_tail_witness:
  "\<forall>pf pwr. \<exists>s'.
     volk_32f_s32f_power_32f_a_sse4_1 True pf [0, 0, 0, 0, 0, 0]
       [0x40000000, 0xC0000000, 0x80000000, 0x3F800000, 0x40400000, 0xC0800000] pwr 6 = Inr s' \<and>
     volk_32f_s32f_power_32f_a_sse True pf [0, 0, 0, 0, 0, 0]
       [0x40000000, 0xC0000000, 0x80000000, 0x3F800000, 0x40400000, 0xC0800000] pwr 6 = Inr s' \<and>
     trace s' =
       [Call_powf minus_one_f pwr,
        Load4 0,
        Call_powf4 (M128 (masked_abs pf 0x40000000) (masked_abs pf 0xC0000000)
                      (masked_abs pf 0x80000000) (masked_abs pf 0x3F800000)) (mm_set_ps1 pwr),
        Store4 0,
        Load 4, Call_powf 0x40400000 pwr, Store 4,
        Load 5, Call_powf 0xC0800000 pwr, Store 5] \<and>
     written_indices (trace s') = [0, 1, 2, 3, 4, 5] \<and>
     length (cVec s') = 6 \<and>
     cVec s' ! 1 =
       mul_ss pf (correction_factor (powf pf minus_one_f pwr) 0xC0000000)
         (lane (powf4 pf (M128 (masked_abs pf 0x40000000) (masked_abs pf 0xC0000000)
                            (masked_abs pf 0x80000000) (masked_abs pf 0x3F800000))
                  (mm_set_ps1 pwr)) 1) \<and>
     cVec s' ! 4 = powf pf 0x40400000 pwr \<and>
     cVec s' ! 5 = powf pf 0xC0800000 pwr"
proof (intro allI)
  fix pf :: platform and pwr :: float
  let ?a = "[0x40000000, 0xC0000000, 0x80000000, 0x3F800000, 0x40400000, 0xC0800000] :: float list"
  let ?c = "[0, 0, 0, 0, 0, 0] :: float list"
  have h: "unat (6 :: uint) \<le> length ?a" "unat (6 :: uint) \<le> length ?c"
    by simp_all
  have u: "[0..<6 div 4] = [0]" "[4 * (6 div 4)..<6] = [4, 5]" "[0..<6] = [0, 1, 2, 3, 4, 5]"
    by (simp_all add: upt_conv_Cons del: upt_Suc)
  have n: "unat (6 :: uint) = 6"
    by simp
  from simd_batches_then_scalar_tail [OF h, of pf pwr, unfolded n u]
  obtain s' where s':
    "volk_32f_s32f_power_32f_a_sse4_1 True pf ?c ?a pwr 6 = Inr s'"
    "volk_32f_s32f_power_32f_a_sse True pf ?c ?a pwr 6 = Inr s'"
    "trace s' =
       Call_powf minus_one_f pwr #
       concat (map (\<lambda>k. [Load4 (4 * k),
                          Call_powf4 (map_ps (masked_abs pf) (vec_at ?a (4 * k))) (mm_set_ps1 pwr),
                          Store4 (4 * k)]) [0]) @
       concat (map (\<lambda>i. [Load i, Call_powf (?a ! i) pwr, Store i]) [4, 5])"
    "written_indices (trace s') = [0, 1, 2, 3, 4, 5]"
    "length (cVec s') = length ?c"
    "\<forall>i. i < 4 * (6 div 4) \<longrightarrow>
         cVec s' ! i =
           mul_ss pf (correction_factor (powf pf minus_one_f pwr) (?a ! i))
             (lane (powf4 pf (map_ps (masked_abs pf) (vec_at ?a (4 * (i div 4))))
                      (mm_set_ps1 pwr))
                (i mod 4))"
    "\<forall>i. 4 * (6 div 4) \<le> i \<and> i < 6 \<longrightarrow> cVec s' ! i = powf pf (?a ! i) pwr"
    by (elim exE conjE) (rule that, assumption+)
  have "cVec s' ! 4 = powf pf 0x40400000 pwr" "cVec s' ! 5 = powf pf 0xC0800000 pwr"
    using s'(7) [rule_format, of 4] s'(7) [rule_format, of 5] by simp_all
  moreover have "cVec s' ! 1 =
       mul_ss pf (correction_factor (powf pf minus_one_f pwr) 0xC0000000)
         (lane (powf4 pf (M128 (masked_abs pf 0x40000000) (masked_abs pf 0xC0000000)
                            (masked_abs pf 0x80000000) (masked_abs pf 0x3F800000))
                  (mm_set_ps1 pwr)) 1)"
    using s'(6) [rule_format, of 1] by (simp add: vec_at_def)
  ultimately show "\<exists>s'.
     volk_32f_s32f_power_32f_a_sse4_1 True pf ?c ?a pwr 6 = Inr s' \<and>
     volk_32f_s32f_power_32f_a_sse True pf ?c ?a pwr 6 = Inr s' \<and>
     trace s' =
       [Call_powf minus_one_f pwr,
        Load4 0,
        Call_powf4 (M128 (masked_abs pf 0x40000000) (masked_abs pf 0xC0000000)
                      (masked_abs pf 0x80000000) (masked_abs pf 0x3F800000)) (mm_set_ps1 pwr),
        Store4 0,
        Load 4, Call_powf 0x40400000 pwr, Store 4,
        Load 5, Call_powf 0xC0800000 pwr, Store 5] \<and>
     written_indices (trace s') = [0, 1, 2, 3, 4, 5] \<and>
     length (cVec s') = 6 \<and>
     cVec s' ! 1 =
       mul_ss pf (correction_factor (powf pf minus_one_f pwr) 0xC0000000)
         (lane (powf4 pf (M128 (masked_abs pf 0x40000000) (masked_abs pf 0xC0000000)
                            (masked_abs pf 0x80000000) (masked_abs pf 0x3F800000))
                  (mm_set_ps1 pwr)) 1) \<and>
     cVec s' ! 4 = powf pf 0x40400000 pwr \<and>
     cVec s' ! 5 = powf pf 0xC0800000 pwr"
    using s'(1,2,4,5) by (simp add: s'(3) vec_at_def)
qed

text \<open>
  C4. Built with \<^verbatim>\<open>LV_HAVE_LIB_SIMDMATH\<close>, the output element of a lane of a batch is
  \<open>c * powf4(|input|, exponent)\<close> taken at that lane: the base of a lane is \<open>0 - x\<close> where the
  sign mask \<open>x < 0\<close> is set and \<open>x\<close> elsewhere, the factor \<open>c\<close> is \<^verbatim>\<open>powf(-1, power)\<close> where the
  mask is set and \<open>1.0\<close> elsewhere, and the product is that of \<^verbatim>\<open>_mm_mul_ps\<close>. The scalar
  \<^verbatim>\<open>powf\<close> is called once with \<open>(-1, power)\<close>, before the batch loop, and after that only for
  the elements of the tail: no batch calls it, and its first call depends on the exponent
  alone.
\<close>

theorem simd_lane_is_factor_times_powf4:
  assumes "unat num_points \<le> length aVector" "unat num_points \<le> length cVector"
    and "i < 4 * (unat num_points div 4)"
  shows "\<exists>s'. volk_32f_s32f_power_32f_a_sse4_1 True pf cVector aVector pwr num_points = Inr s' \<and>
           volk_32f_s32f_power_32f_a_sse True pf cVector aVector pwr num_points = Inr s' \<and>
           cVec s' ! i =
             mul_ss pf (if float_lt (aVector ! i) 0 then powf pf minus_one_f pwr else one_f)
               (lane (powf4 pf
                        (map_ps (\<lambda>x. if float_lt x 0 then sub_ss pf 0 x else x)
                           (vec_at aVector (4 * (i div 4))))
                        (mm_set_ps1 pwr))
                  (i mod 4)) \<and>
           powf_calls (trace s') =
             (minus_one_f, pwr) #
             map (\<lambda>j. (aVector ! j, pwr)) [4 * (unat num_points div 4)..<unat num_points]"
proof -
  let ?n = "unat num_points"
  from simd_kernels_ok [OF assms(1,2), of pf pwr] obtain s' where s':
    "volk_32f_s32f_power_32f_a_sse4_1 True pf cVector aVector pwr num_points = Inr s'"
    "volk_32f_s32f_power_32f_a_sse True pf cVector aVector pwr num_points = Inr s'"
    "\<And>i. cVec s' ! i =
           (if i < 4 * (?n div 4)
            then mul_ss pf (correction_factor (powf pf minus_one_f pwr) (aVector ! i))
                   (lane (powf4 pf (map_ps (masked_abs pf) (vec_at aVector (4 * (i div 4))))
                            (mm_set_ps1 pwr)) (i mod 4))
            else if i < ?n then powf pf (aVector ! i) pwr
            else cVector ! i)"
    "trace s' = Call_powf minus_one_f pwr #
          batch_events blend_sse4_1 pf (mm_set_ps1 pwr) mm_setzero_ps
            (mm_set_ps1 (powf pf minus_one_f pwr)) (mm_set_ps1 one_f) aVector 0 0 (?n div 4) @
          scalar_events pf pwr aVector (4 * (?n div 4)) (4 * (?n div 4)) (?n mod 4)"
    by blast
  have m: "masked_abs pf = (\<lambda>x. if float_lt x 0 then sub_ss pf 0 x else x)"
    by (rule ext) (simp add: masked_abs_def)
  have c: "powf_calls (e # tr) = powf_args e @ powf_calls tr" for e tr
    by (simp add: powf_calls_def)
  have p: "powf_calls (trace s') =
             (minus_one_f, pwr) # map (\<lambda>j. (aVector ! j, pwr)) [4 * (?n div 4)..<?n]"
    unfolding s'(4) c powf_calls_append powf_calls_batch_events powf_calls_scalar_events
      quarter_split
    by simp
  have "cVec s' ! i =
             mul_ss pf (if float_lt (aVector ! i) 0 then powf pf minus_one_f pwr else one_f)
               (lane (powf4 pf
                        (map_ps (\<lambda>x. if float_lt x 0 then sub_ss pf 0 x else x)
                           (vec_at aVector (4 * (i div 4))))
                        (mm_set_ps1 pwr))
                  (i mod 4))"
    using assms(3) by (simp add: s'(3) m [symmetric] correction_factor_def)
  with s'(1,2) p show ?thesis
    by simp
qed

theorem simd_lane_is_factor_times_powf4_witness:
  "\<forall>pf pwr. \<exists>s'.
     volk_32f_s32f_power_32f_a_sse4_1 True pf [0, 0, 0, 0, 0]
       [0x40000000, 0xC0000000, 0x80000000, 0x3F800000, 0xBF800000] pwr 5 = Inr s' \<and>
     volk_32f_s32f_power_32f_a_sse True pf [0, 0, 0, 0, 0]
       [0x40000000, 0xC0000000, 0x80000000, 0x3F800000, 0xBF800000] pwr 5 = Inr s' \<and>
     cVec s' ! 1 =
       mul_ss pf (powf pf minus_one_f pwr)
         (lane (powf4 pf (M128 0x40000000 (sub_ss pf 0 0xC0000000) 0x80000000 0x3F800000)
                  (mm_set_ps1 pwr)) 1) \<and>
     powf_calls (trace s') = [(minus_one_f, pwr), (0xBF800000, pwr)]"
proof (intro allI)
  fix pf :: platform and pwr :: float
  let ?a = "[0x40000000, 0xC0000000, 0x80000000, 0x3F800000, 0xBF800000] :: float list"
  let ?c = "[0, 0, 0, 0, 0] :: float list"
  have n: "unat (5 :: uint) = 5"
    by simp
  have h: "unat (5 :: uint) \<le> length ?a" "unat (5 :: uint) \<le> length ?c"
    "(1 :: nat) < 4 * (unat (5 :: uint) div 4)"
    by (simp_all add: n)
  have u: "[4 * (5 div 4)..<5] = [4 :: nat]"
    by (simp add: upt_conv_Cons del: upt_Suc)
  have lt: "float_lt 0x40000000 0 = False" "float_lt 0xC0000000 0 = True"
    "float_lt 0x80000000 0 = False" "float_lt 0x3F800000 0 = False"
    by (simp_all add: float_lt_def is_nan_def magnitude_def sign_bit_def)
  have v: "map_ps (\<lambda>x. if float_lt x 0 then sub_ss pf 0 x else x) (vec_at ?a (4 * (1 div 4))) =
           M128 0x40000000 (sub_ss pf 0 0xC0000000) 0x80000000 0x3F800000"
    by (simp add: vec_at_def lt)
  from simd_lane_is_factor_times_powf4 [OF h, of pf pwr, unfolded n u v]
  show "\<exists>s'.
     volk_32f_s32f_power_32f_a_sse4_1 True pf ?c ?a pwr 5 = Inr s' \<and>
     volk_32f_s32f_power_32f_a_sse True pf ?c ?a pwr 5 = Inr s' \<and>
     cVec s' ! 1 =
       mul_ss pf (powf pf minus_one_f pwr)
         (lane (powf4 pf (M128 0x40000000 (sub_ss pf 0 0xC0000000) 0x80000000 0x3F800000)
                  (mm_set_ps1 pwr)) 1) \<and>
     powf_calls (trace s') = [(minus_one_f, pwr), (0xBF800000, pwr)]"
    by (simp add: lt)
qed

text \<open>
  C5. Built without \<^verbatim>\<open>LV_HAVE_LIB_SIMDMATH\<close>, the SSE4.1 and the SSE kernel are each equal to
  the generic kernel, for every input, exponent and count and whatever the buffers: the same
  result state (output, pointers and trace) or the same fault.
\<close>

theorem simd_without_simdmath_is_generic:
  "volk_32f_s32f_power_32f_a_sse4_1 False pf cVector aVector pwr num_points =
     volk_32f_s32f_power_32f_generic pf cVector aVector pwr num_points \<and>
   volk_32f_s32f_power_32f_a_sse False pf cVector aVector pwr num_points =
     volk_32f_s32f_power_32f_generic pf cVector aVector pwr num_points"
  by (simp add: volk_32f_s32f_power_32f_a_sse4_1_def volk_32f_s32f_power_32f_a_sse_def simd_off)

text \<open>
  C6. For every kernel, with or without \<^verbatim>\<open>LV_HAVE_LIB_SIMDMATH\<close>, a call on buffers that
  hold \<open>num_points\<close> elements returns without a fault, and no index that it loads from the
  input or stores to the output lies outside \<open>[0, num_points)\<close>.
\<close>

theorem no_access_outside_count:
  assumes "unat num_points \<le> length aVector" "unat num_points \<le> length cVector"
  shows "accesses_below (unat num_points)
           (volk_32f_s32f_power_32f_generic pf cVector aVector pwr num_points) \<and>
         accesses_below (unat num_points)
           (volk_32f_s32f_power_32f_a_sse4_1 have_simdmath pf cVector aVector pwr num_points) \<and>
         accesses_below (unat num_points)
           (volk_32f_s32f_power_32f_a_sse have_simdmath pf cVector aVector pwr num_points)"
proof -
  from generic_determined [OF assms, of pf pwr]
  have g: "accesses_below (unat num_points)
             (volk_32f_s32f_power_32f_generic pf cVector aVector pwr num_points)"
    unfolding accesses_below_def by auto
  from kernels_determined [OF assms, of have_simdmath pf pwr]
  have "accesses_below (unat num_points)
          (volk_32f_s32f_power_32f_a_sse4_1 have_simdmath pf cVector aVector pwr num_points)"
    "accesses_below (unat num_points)
          (volk_32f_s32f_power_32f_a_sse have_simdmath pf cVector aVector pwr num_points)"
    unfolding accesses_below_def by auto
  with g show ?thesis by simp
qed

theorem no_access_outside_count_witness:
  "\<forall>pf pwr have_simdmath.
     accesses_below 5
       (volk_32f_s32f_power_32f_generic pf [0, 0, 0, 0, 0]
          [0x40000000, 0xC0000000, 0x80000000, 0x3F800000, 0xBF800000] pwr 5) \<and>
     accesses_below 5
       (volk_32f_s32f_power_32f_a_sse4_1 have_simdmath pf [0, 0, 0, 0, 0]
          [0x40000000, 0xC0000000, 0x80000000, 0x3F800000, 0xBF800000] pwr 5) \<and>
     accesses_below 5
       (volk_32f_s32f_power_32f_a_sse have_simdmath pf [0, 0, 0, 0, 0]
          [0x40000000, 0xC0000000, 0x80000000, 0x3F800000, 0xBF800000] pwr 5)"
proof (intro allI)
  fix pf :: platform and pwr :: float and have_simdmath :: bool
  let ?a = "[0x40000000, 0xC0000000, 0x80000000, 0x3F800000, 0xBF800000] :: float list"
  let ?c = "[0, 0, 0, 0, 0] :: float list"
  have n: "unat (5 :: uint) = 5"
    by simp
  have h: "unat (5 :: uint) \<le> length ?a" "unat (5 :: uint) \<le> length ?c"
    by (simp_all add: n)
  from no_access_outside_count [OF h, of pf pwr have_simdmath, unfolded n]
  show "accesses_below 5 (volk_32f_s32f_power_32f_generic pf ?c ?a pwr 5) \<and>
     accesses_below 5 (volk_32f_s32f_power_32f_a_sse4_1 have_simdmath pf ?c ?a pwr 5) \<and>
     accesses_below 5 (volk_32f_s32f_power_32f_a_sse have_simdmath pf ?c ?a pwr 5)" .
qed

text \<open>
  C7. A call with \<open>num_points = 0\<close> is a no-op for every kernel: it returns without a fault,
  the output and the input buffer are what they were, and the trace holds no load and no
  store. This holds with and without \<^verbatim>\<open>LV_HAVE_LIB_SIMDMATH\<close> and for buffers of any
  length, the empty ones included.
\<close>

theorem zero_count_is_noop:
  "(\<exists>s'. volk_32f_s32f_power_32f_generic pf cVector aVector pwr 0 = Inr s' \<and>
         cVec s' = cVector \<and> aVec s' = aVector \<and>
         read_indices (trace s') = [] \<and> written_indices (trace s') = []) \<and>
   (\<exists>s'. volk_32f_s32f_power_32f_a_sse4_1 have_simdmath pf cVector aVector pwr 0 = Inr s' \<and>
         cVec s' = cVector \<and> aVec s' = aVector \<and>
         read_indices (trace s') = [] \<and> written_indices (trace s') = []) \<and>
   (\<exists>s'. volk_32f_s32f_power_32f_a_sse have_simdmath pf cVector aVector pwr 0 = Inr s' \<and>
         cVec s' = cVector \<and> aVec s' = aVector \<and>
         read_indices (trace s') = [] \<and> written_indices (trace s') = [])"
  by (simp add: volk_32f_s32f_power_32f_generic_def scalar_loop_zero
      volk_32f_s32f_power_32f_a_sse4_1_def volk_32f_s32f_power_32f_a_sse_def simd_zero
      read_indices_def written_indices_def)

text \<open>
  C8. The SSE kernel and the SSE4.1 kernel compute the same result for every input,
  exponent and count, with and without \<^verbatim>\<open>LV_HAVE_LIB_SIMDMATH\<close>; and on a mask that
  \<^verbatim>\<open>_mm_cmplt_ps\<close> produced, the and/andnot/or selection of the SSE kernel chooses exactly the
  lanes that \<^verbatim>\<open>_mm_blendv_ps\<close> chooses.
\<close>

theorem sse_equals_sse4_1:
  "volk_32f_s32f_power_32f_a_sse have_simdmath pf cVector aVector pwr num_points =
     volk_32f_s32f_power_32f_a_sse4_1 have_simdmath pf cVector aVector pwr num_points \<and>
   mm_or_ps (mm_andnot_ps (mm_cmplt_ps a b) x) (mm_and_ps (mm_cmplt_ps a b) y) =
     mm_blendv_ps x y (mm_cmplt_ps a b)"
  using blend_cmplt [of x y a b]
  by (simp add: volk_32f_s32f_power_32f_a_sse4_1_def volk_32f_s32f_power_32f_a_sse_def simd_blend
      blend_sse_def blend_sse4_1_def)

text \<open>
  C9. Every kernel is deterministic and stateless. Two calls of one kernel with the same
  exponent and count, on inputs that agree on their first \<open>num_points\<close> elements, produce
  the same first \<open>num_points\<close> output words, whatever the output buffers held before and
  whatever lies behind the first \<open>num_points\<close> elements; the call leaves the input buffer
  and the rest of the output buffer as they were. A kernel here is a function of its
  arguments and of the platform routines, which are functions of theirs.
\<close>

theorem deterministic_and_stateless:
  assumes "unat num_points \<le> length aVector" "unat num_points \<le> length cVector"
    and "unat num_points \<le> length aVector'" "unat num_points \<le> length cVector'"
    and "take (unat num_points) aVector = take (unat num_points) aVector'"
  shows "same_output_and_frame (unat num_points) cVector aVector
           (volk_32f_s32f_power_32f_generic pf cVector aVector pwr num_points)
           (volk_32f_s32f_power_32f_generic pf cVector' aVector' pwr num_points) \<and>
         same_output_and_frame (unat num_points) cVector aVector
           (volk_32f_s32f_power_32f_a_sse4_1 have_simdmath pf cVector aVector pwr num_points)
           (volk_32f_s32f_power_32f_a_sse4_1 have_simdmath pf cVector' aVector' pwr num_points) \<and>
         same_output_and_frame (unat num_points) cVector aVector
           (volk_32f_s32f_power_32f_a_sse have_simdmath pf cVector aVector pwr num_points)
           (volk_32f_s32f_power_32f_a_sse have_simdmath pf cVector' aVector' pwr num_points)"
proof -
  from generic_determined [OF assms(1,2), of pf pwr] generic_determined [OF assms(3,4), of pf pwr]
  have g: "same_output_and_frame (unat num_points) cVector aVector
           (volk_32f_s32f_power_32f_generic pf cVector aVector pwr num_points)
           (volk_32f_s32f_power_32f_generic pf cVector' aVector' pwr num_points)"
    unfolding same_output_and_frame_def assms(5) by auto
  from kernels_determined [OF assms(1,2), of have_simdmath pf pwr]
    kernels_determined [OF assms(3,4), of have_simdmath pf pwr]
  have "same_output_and_frame (unat num_points) cVector aVector
           (volk_32f_s32f_power_32f_a_sse4_1 have_simdmath pf cVector aVector pwr num_points)
           (volk_32f_s32f_power_32f_a_sse4_1 have_simdmath pf cVector' aVector' pwr num_points)"
    "same_output_and_frame (unat num_points) cVector aVector
           (volk_32f_s32f_power_32f_a_sse have_simdmath pf cVector aVector pwr num_points)
           (volk_32f_s32f_power_32f_a_sse have_simdmath pf cVector' aVector' pwr num_points)"
    unfolding same_output_and_frame_def assms(5) by auto
  with g show ?thesis by simp
qed

theorem deterministic_and_stateless_witness:
  "\<forall>pf pwr have_simdmath.
     same_output_and_frame 5 [0, 0, 0, 0, 0]
       [0x40000000, 0xC0000000, 0x80000000, 0x3F800000, 0xBF800000]
       (volk_32f_s32f_power_32f_generic pf [0, 0, 0, 0, 0]
          [0x40000000, 0xC0000000, 0x80000000, 0x3F800000, 0xBF800000] pwr 5)
       (volk_32f_s32f_power_32f_generic pf [7, 7, 7, 7, 7, 9]
          [0x40000000, 0xC0000000, 0x80000000, 0x3F800000, 0xBF800000, 0x7FC00000] pwr 5) \<and>
     same_output_and_frame 5 [0, 0, 0, 0, 0]
       [0x40000000, 0xC0000000, 0x80000000, 0x3F800000, 0xBF800000]
       (volk_32f_s32f_power_32f_a_sse4_1 have_simdmath pf [0, 0, 0, 0, 0]
          [0x40000000, 0xC0000000, 0x80000000, 0x3F800000, 0xBF800000] pwr 5)
       (volk_32f_s32f_power_32f_a_sse4_1 have_simdmath pf [7, 7, 7, 7, 7, 9]
          [0x40000000, 0xC0000000, 0x80000000, 0x3F800000, 0xBF800000, 0x7FC00000] pwr 5) \<and>
     same_output_and_frame 5 [0, 0, 0, 0, 0]
       [0x40000000, 0xC0000000, 0x80000000, 0x3F800000, 0xBF800000]
       (volk_32f_s32f_power_32f_a_sse have_simdmath pf [0, 0, 0, 0, 0]
          [0x40000000, 0xC0000000, 0x80000000, 0x3F800000, 0xBF800000] pwr 5)
       (volk_32f_s32f_power_32f_a_sse have_simdmath pf [7, 7, 7, 7, 7, 9]
          [0x40000000, 0xC0000000, 0x80000000, 0x3F800000, 0xBF800000, 0x7FC00000] pwr 5)"
proof (intro allI)
  fix pf :: platform and pwr :: float and have_simdmath :: bool
  let ?a = "[0x40000000, 0xC0000000, 0x80000000, 0x3F800000, 0xBF800000] :: float list"
  let ?c = "[0, 0, 0, 0, 0] :: float list"
  let ?a' = "[0x40000000, 0xC0000000, 0x80000000, 0x3F800000, 0xBF800000, 0x7FC00000] :: float list"
  let ?c' = "[7, 7, 7, 7, 7, 9] :: float list"
  have n: "unat (5 :: uint) = 5"
    by simp
  have h: "unat (5 :: uint) \<le> length ?a" "unat (5 :: uint) \<le> length ?c"
    "unat (5 :: uint) \<le> length ?a'" "unat (5 :: uint) \<le> length ?c'"
    "take (unat (5 :: uint)) ?a = take (unat (5 :: uint)) ?a'"
    by (simp_all add: n)
  from deterministic_and_stateless [OF h, of pf pwr have_simdmath, unfolded n]
  show "same_output_and_frame 5 ?c ?a
       (volk_32f_s32f_power_32f_generic pf ?c ?a pwr 5)
       (volk_32f_s32f_power_32f_generic pf ?c' ?a' pwr 5) \<and>
     same_output_and_frame 5 ?c ?a
       (volk_32f_s32f_power_32f_a_sse4_1 have_simdmath pf ?c ?a pwr 5)
       (volk_32f_s32f_power_32f_a_sse4_1 have_simdmath pf ?c' ?a' pwr 5) \<and>
     same_output_and_frame 5 ?c ?a
       (volk_32f_s32f_power_32f_a_sse have_simdmath pf ?c ?a pwr 5)
       (volk_32f_s32f_power_32f_a_sse have_simdmath pf ?c' ?a' pwr 5)" .
qed

text \<open>
  C10. In the batches of both SSE kernels a lane counts as negative exactly when it
  compares less than zero, that is when its sign bit is set and it is neither a zero nor a
  NaN: the output element of a batch lane is the product of the factor chosen by that test,
  \<^verbatim>\<open>powf(-1, power)\<close> or \<open>1.0\<close>, and the lane of \<^verbatim>\<open>powf4\<close> applied to the bases chosen by the same
  test. So for an input element \<open>-0.0\<close> in a batch the base handed to \<^verbatim>\<open>powf4\<close> is the element
  as it is, a zero with its sign bit, and the output element is \<open>1.0\<close> times the lane of the
  \<^verbatim>\<open>powf4\<close> result. The mask of \<^verbatim>\<open>_mm_cmplt_ps\<close> against zero is, lane by lane, all ones under
  that test and all zeros otherwise.
\<close>

theorem sign_mask_is_strictly_less_than_zero:
  assumes "unat num_points \<le> length aVector" "unat num_points \<le> length cVector"
    and "i < 4 * (unat num_points div 4)"
  shows "\<exists>s'. volk_32f_s32f_power_32f_a_sse4_1 True pf cVector aVector pwr num_points = Inr s' \<and>
           volk_32f_s32f_power_32f_a_sse True pf cVector aVector pwr num_points = Inr s' \<and>
           cVec s' ! i =
             mul_ss pf
               (if sign_bit (aVector ! i) \<and> magnitude (aVector ! i) \<noteq> 0 \<and> \<not> is_nan (aVector ! i)
                then powf pf minus_one_f pwr else one_f)
               (lane (powf4 pf
                        (map_ps (\<lambda>x. if sign_bit x \<and> magnitude x \<noteq> 0 \<and> \<not> is_nan x
                                      then sub_ss pf 0 x else x)
                           (vec_at aVector (4 * (i div 4))))
                        (mm_set_ps1 pwr))
                  (i mod 4)) \<and>
           (aVector ! i = neg_zero_f \<longrightarrow>
              lane (map_ps (\<lambda>x. if sign_bit x \<and> magnitude x \<noteq> 0 \<and> \<not> is_nan x
                                  then sub_ss pf 0 x else x)
                      (vec_at aVector (4 * (i div 4)))) (i mod 4) = neg_zero_f \<and>
              cVec s' ! i =
                mul_ss pf one_f
                  (lane (powf4 pf
                           (map_ps (\<lambda>x. if sign_bit x \<and> magnitude x \<noteq> 0 \<and> \<not> is_nan x
                                         then sub_ss pf 0 x else x)
                              (vec_at aVector (4 * (i div 4))))
                           (mm_set_ps1 pwr))
                     (i mod 4))) \<and>
           mm_cmplt_ps (M128 x0 x1 x2 x3) mm_setzero_ps =
             M128 (if float_lt x0 0 then 0xFFFFFFFF else 0) (if float_lt x1 0 then 0xFFFFFFFF else 0)
               (if float_lt x2 0 then 0xFFFFFFFF else 0) (if float_lt x3 0 then 0xFFFFFFFF else 0) \<and>
           float_lt x 0 = (sign_bit x \<and> magnitude x \<noteq> 0 \<and> \<not> is_nan x) \<and>
           sign_bit neg_zero_f \<and> magnitude neg_zero_f = 0 \<and> \<not> float_lt neg_zero_f 0"
proof -
  let ?n = "unat num_points"
  let ?abs = "\<lambda>x. if sign_bit x \<and> magnitude x \<noteq> 0 \<and> \<not> is_nan x then sub_ss pf 0 x else x"
  from simd_kernels_ok [OF assms(1,2), of pf pwr] obtain s' where s':
    "volk_32f_s32f_power_32f_a_sse4_1 True pf cVector aVector pwr num_points = Inr s'"
    "volk_32f_s32f_power_32f_a_sse True pf cVector aVector pwr num_points = Inr s'"
    "\<And>i. cVec s' ! i =
           (if i < 4 * (?n div 4)
            then mul_ss pf (correction_factor (powf pf minus_one_f pwr) (aVector ! i))
                   (lane (powf4 pf (map_ps (masked_abs pf) (vec_at aVector (4 * (i div 4))))
                            (mm_set_ps1 pwr)) (i mod 4))
            else if i < ?n then powf pf (aVector ! i) pwr
            else cVector ! i)"
    by blast
  have m: "masked_abs pf = ?abs"
    by (rule ext) (simp add: masked_abs_def float_lt_zero)
  have j: "i mod 4 < 4" by simp
  have e: "lane (vec_at aVector (4 * (i div 4))) (i mod 4) = aVector ! i"
    by (simp add: lane_vec_at [OF j])
  have out: "cVec s' ! i =
             mul_ss pf
               (if sign_bit (aVector ! i) \<and> magnitude (aVector ! i) \<noteq> 0 \<and> \<not> is_nan (aVector ! i)
                then powf pf minus_one_f pwr else one_f)
               (lane (powf4 pf (map_ps ?abs (vec_at aVector (4 * (i div 4)))) (mm_set_ps1 pwr))
                  (i mod 4))"
    using assms(3) by (simp add: s'(3) m [symmetric] correction_factor_def float_lt_zero)
  have z: "sign_bit neg_zero_f" "magnitude neg_zero_f = 0"
    by (simp_all add: sign_bit_def magnitude_def neg_zero_f_def)
  have base: "lane (map_ps ?abs (vec_at aVector (4 * (i div 4)))) (i mod 4) = neg_zero_f"
    if "aVector ! i = neg_zero_f"
    using that z by (simp add: lane_map_ps [OF j] e)
  have zero_out: "cVec s' ! i =
                mul_ss pf one_f
                  (lane (powf4 pf (map_ps ?abs (vec_at aVector (4 * (i div 4)))) (mm_set_ps1 pwr))
                     (i mod 4))"
    if "aVector ! i = neg_zero_f"
    unfolding out using that z by simp
  have c: "mm_cmplt_ps (M128 x0 x1 x2 x3) mm_setzero_ps =
     M128 (if float_lt x0 0 then 0xFFFFFFFF else 0) (if float_lt x1 0 then 0xFFFFFFFF else 0)
          (if float_lt x2 0 then 0xFFFFFFFF else 0) (if float_lt x3 0 then 0xFFFFFFFF else 0)"
    by (simp only: mm_cmplt_ps_def mm_setzero_ps_def map2_ps.simps)
  show ?thesis
    using s'(1,2) out base zero_out c z float_lt_zero [of x] neg_zero_not_lt
    by (intro exI [of _ s'] conjI impI) simp_all
qed

theorem sign_mask_negative_zero_example:
  "\<forall>pf pwr. \<exists>s'.
     volk_32f_s32f_power_32f_a_sse4_1 True pf [0, 0, 0, 0]
       [0x80000000, 0xC0000000, 0x40000000, 0xFFC00000] pwr 4 = Inr s' \<and>
     volk_32f_s32f_power_32f_a_sse True pf [0, 0, 0, 0]
       [0x80000000, 0xC0000000, 0x40000000, 0xFFC00000] pwr 4 = Inr s' \<and>
     cVec s' ! 0 =
       mul_ss pf one_f
         (lane (powf4 pf (M128 0x80000000 (sub_ss pf 0 0xC0000000) 0x40000000 0xFFC00000)
                  (mm_set_ps1 pwr)) 0)"
proof (intro allI)
  fix pf :: platform and pwr :: float
  let ?a = "[0x80000000, 0xC0000000, 0x40000000, 0xFFC00000] :: float list"
  let ?c = "[0, 0, 0, 0] :: float list"
  have n: "unat (4 :: uint) = 4"
    by simp
  have h: "unat (4 :: uint) \<le> length ?a" "unat (4 :: uint) \<le> length ?c"
    "(0 :: nat) < 4 * (unat (4 :: uint) div 4)"
    by (simp_all add: n)
  have v: "map_ps (\<lambda>x. if sign_bit x \<and> magnitude x \<noteq> 0 \<and> \<not> is_nan x then sub_ss pf 0 x else x)
             (vec_at ?a (4 * (0 div 4))) =
           M128 0x80000000 (sub_ss pf 0 0xC0000000) 0x40000000 0xFFC00000"
    by (simp add: vec_at_def sign_bit_def magnitude_def is_nan_def)
  from sign_mask_is_strictly_less_than_zero [OF h, of pf pwr 0 0 0 0 0, unfolded v]
  show "\<exists>s'.
     volk_32f_s32f_power_32f_a_sse4_1 True pf ?c ?a pwr 4 = Inr s' \<and>
     volk_32f_s32f_power_32f_a_sse True pf ?c ?a pwr 4 = Inr s' \<and>
     cVec s' ! 0 =
       mul_ss pf one_f
         (lane (powf4 pf (M128 0x80000000 (sub_ss pf 0 0xC0000000) 0x40000000 0xFFC00000)
                  (mm_set_ps1 pwr)) 0)"
    by (auto simp: neg_zero_f_def)
qed

end
